theory Spec2Isabelle
  imports Complex_Main "HOL-Library.Word" "HOL-Library.Multiset" "HOL-Library.Option_ord"
begin

section \<open>Go library functions used by the client\<close>

text \<open>
  Go strings are byte sequences; \<open>string\<close> (a \<open>char list\<close>) holds the same bytes.
  Every separator the client passes to \<open>strings.Index\<close>, \<open>strings.Split\<close> and
  \<open>strings.SplitN\<close> is one byte long, so the separator is a \<open>char\<close> here.
\<close>

text \<open>\<open>strings.Index(s, sep)\<close>: the byte index of the first \<open>sep\<close> in \<open>s\<close>, or \<open>-1\<close>.\<close>

fun strings_Index :: "string \<Rightarrow> char \<Rightarrow> int" where
  "strings_Index [] c = - 1"
| "strings_Index (x # xs) c =
     (if x = c then 0
      else (let i = strings_Index xs c in if i < 0 then - 1 else i + 1))"

text \<open>\<open>strings.Split(s, sep)\<close>: the pieces of \<open>s\<close> between the occurrences of \<open>sep\<close>;
  \<open>n\<close> separators give \<open>n + 1\<close> pieces, the empty string gives one empty piece.\<close>

fun strings_Split :: "string \<Rightarrow> char \<Rightarrow> string list" where
  "strings_Split [] c = [[]]"
| "strings_Split (x # xs) c =
     (if x = c then [] # strings_Split xs c
      else (case strings_Split xs c of
              [] \<Rightarrow> [[x]]
            | p # ps \<Rightarrow> (x # p) # ps))"

text \<open>\<open>strings.SplitN(s, sep, n)\<close>: as \<open>Split\<close>, but at most \<open>n\<close> pieces, the last one
  the unsplit rest; no piece at all for \<open>n = 0\<close>, every piece for \<open>n < 0\<close>.\<close>

fun splitN_pieces :: "string \<Rightarrow> char \<Rightarrow> nat \<Rightarrow> string list" where
  "splitN_pieces [] c k = [[]]"
| "splitN_pieces (x # xs) c k =
     (if x = c \<and> 1 < k then [] # splitN_pieces xs c (k - 1)
      else (case splitN_pieces xs c k of
              [] \<Rightarrow> [[x]]
            | p # ps \<Rightarrow> (x # p) # ps))"

definition strings_SplitN :: "string \<Rightarrow> char \<Rightarrow> int \<Rightarrow> string list" where
  "strings_SplitN s c n =
     (if n = 0 then [] else if n < 0 then strings_Split s c else splitN_pieces s c (nat n))"

text \<open>A slice expression \<open>s[lo:hi]\<close> panics unless \<open>0 \<le> lo \<le> hi \<le> len(s)\<close>;
  \<open>s[lo:]\<close> is \<open>s[lo:len(s)]\<close>.\<close>

datatype panic = SliceBoundsOutOfRange

definition slice :: "string \<Rightarrow> int \<Rightarrow> int \<Rightarrow> panic + string" where
  "slice s lo hi =
     (if 0 \<le> lo \<and> lo \<le> hi \<and> hi \<le> int (length s)
      then Inr (take (nat hi - nat lo) (drop (nat lo) s))
      else Inl SliceBoundsOutOfRange)"

definition slice_from :: "string \<Rightarrow> int \<Rightarrow> panic + string" where
  "slice_from s lo = slice s lo (int (length s))"

text \<open>\<open>strings.Join(pieces, sep)\<close>, the inverse of \<open>Split\<close>.\<close>

fun strings_Join :: "string list \<Rightarrow> char \<Rightarrow> string" where
  "strings_Join [] c = []"
| "strings_Join [p] c = p"
| "strings_Join (p # q # ps) c = p @ c # strings_Join (q # ps) c"

text \<open>The verb \<open>%v\<close> (and \<open>%d\<close>) of \<open>fmt.Sprintf\<close> on an integer: signed decimal.\<close>

definition digit_char :: "nat \<Rightarrow> char" where
  "digit_char n = ''0123456789'' ! (n mod 10)"

function nat_decimal :: "nat \<Rightarrow> string" where
  "nat_decimal n = (if n < 10 then [digit_char n] else nat_decimal (n div 10) @ [digit_char n])"
  by pat_completeness auto
termination
  by (relation "measure (\<lambda>n. n)") auto

definition int_decimal :: "int \<Rightarrow> string" where
  "int_decimal i = (if i < 0 then ''-'' @ nat_decimal (nat (- i)) else nat_decimal (nat i))"

text \<open>Go's \<open>int\<close> on the 64-bit targets: two's complement, \<open>+\<close> and \<open>*\<close> wrap.\<close>

type_synonym go_int = "64 word"

section \<open>Log decoration\<close>

text \<open>The loop of \<open>decorateLog\<close> over the lines: a non-empty line is written to the
  buffer as \<open>[dec] line\<close> and a newline, an empty one is skipped.\<close>

fun write_lines :: "string \<Rightarrow> string list \<Rightarrow> string \<Rightarrow> string" where
  "write_lines dec [] buf = buf"
| "write_lines dec (l # ls) buf =
     (if 0 < length l
      then write_lines dec ls (buf @ ''['' @ dec @ ''] '' @ l @ [CHR 0x0A])
      else write_lines dec ls buf)"

definition decorateLog :: "string \<Rightarrow> string \<Rightarrow> panic + string" where
  "decorateLog name data =
     (let lines = strings_Split data (CHR 0x0A);
          taskIdx = strings_Index name (CHR ''.'')
      in case slice name 0 taskIdx of
           Inl p \<Rightarrow> Inl p
         | Inr dec \<Rightarrow>
             (case slice_from name (taskIdx + 1) of
                Inl p \<Rightarrow> Inl p
              | Inr taskId \<Rightarrow>
                  (case slice taskId 0 (strings_Index taskId (CHR ''-'')) of
                     Inl p \<Rightarrow> Inl p
                   | Inr short \<Rightarrow>
                       Inr (write_lines (dec @ ''.'' @ short) lines []))))"

text \<open>The task ids \<open>decorateLog\<close> is written for: a \<open>.\<close>, and a \<open>-\<close> somewhere after
  the first \<open>.\<close>.\<close>

definition id_has_separators :: "string \<Rightarrow> bool" where
  "id_has_separators name =
     (CHR ''.'' \<in> set name \<and> CHR ''-'' \<in> set (tl (dropWhile (\<lambda>x. x \<noteq> CHR ''.'') name)))"

section \<open>Cluster state\<close>

text \<open>
  The records decoded from the master's and a slave's \<open>state.json\<close>. Their Go
  declarations are outside \<open>client.go\<close>; the fields are the ones \<open>client.go\<close> reads.
  Timestamps are the finite numbers of a JSON document.
\<close>

record mstateTaskStatus =
  status_Timestamp :: real

record mstateTask =
  task_ExecutorID :: string
  task_FrameworkID :: string
  task_ID :: string
  task_Name :: string
  task_SlaveID :: string
  task_Statuses :: "mstateTaskStatus list"
  task_LastState :: "mstateTaskStatus option"

record mstateFramework =
  fw_Tasks :: "mstateTask list"
  fw_CompletedTasks :: "mstateTask list"

record mstateSlave =
  slave_ID :: string
  slave_Hostname :: string
  slave_Pid :: string

record masterState =
  ms_Frameworks :: "mstateFramework list"
  ms_Slaves :: "mstateSlave list"

record sstateExecutor =
  exec_ID :: string
  exec_Directory :: string

record sstateFramework =
  sfw_ID :: string
  sfw_Executors :: "sstateExecutor list"
  sfw_CompletedExecutors :: "sstateExecutor list"

record slaveState =
  ss_Frameworks :: "sstateFramework list"

record taskInfo =
  ti_Tasks :: "mstateTask list"
  ti_CompletedTasks :: "mstateTask list"

record slaveInfo =
  si_Slave :: mstateSlave
  si_State :: slaveState
  si_Directory :: string

record MesosClientOptions =
  SearchCompletedTasks :: bool
  ShowLatestOnly :: bool

record MesosClient =
  client_Host :: string
  client_Port :: go_int
  client_MasterURL :: string
  client_State :: masterState
  client_Options :: MesosClientOptions

record url =
  url_Scheme :: string
  url_Host :: string
  url_Opaque :: string

text \<open>
  The errors of resolution, one constructor for each \<open>fmt.Errorf\<close> of the client:
  \<open>NotFound\<close> is "application could not be found", \<open>NodeNotFound\<close> is "invalid
  state.json; referenced slave not present", \<open>MalformedAddress pid\<close> is "invalid slave
  pid" followed by the pid, \<open>DirectoryNotFound\<close> is "couldn't locate directory on
  slave". \<open>FetchError\<close> carries an error that \<open>getSlaveState\<close> returned.
\<close>

datatype error =
    NotFound
  | NodeNotFound
  | MalformedAddress string
  | DirectoryNotFound
  | FetchError string

section \<open>Task resolution\<close>

definition findTaskLastState :: "mstateTask \<Rightarrow> mstateTaskStatus option" where
  "findTaskLastState task =
     (let statuses = task_Statuses task
      in if 0 < length statuses then Some (statuses ! (length statuses - 1)) else None)"

text \<open>Modelled from the spec: the method \<open>UpdateLastState\<close> of a task is declared outside
  \<open>client.go\<close>. It records the status it is given as the task's latest status, the one
  recency is read from.\<close>

definition UpdateLastState :: "mstateTask \<Rightarrow> mstateTaskStatus option \<Rightarrow> mstateTask" where
  "UpdateLastState task st = task\<lparr>task_LastState := st\<rparr>"

text \<open>The two inner loops of \<open>findTask\<close> have the same body; \<open>acc\<close> is the slice they
  append to. A matching task is updated in place before it is appended, so the result
  holds the task with its latest status set.\<close>

fun findTask_scan :: "string \<Rightarrow> mstateTask list \<Rightarrow> mstateTask list \<Rightarrow> mstateTask list" where
  "findTask_scan appID [] acc = acc"
| "findTask_scan appID (task # tasks) acc =
     (if task_Name task = appID \<or> task_ID task = appID
      then findTask_scan appID tasks (acc @ [UpdateLastState task (findTaskLastState task)])
      else findTask_scan appID tasks acc)"

text \<open>The loop over the frameworks. Ranging over a nil slice runs no iteration, so the
  test \<open>framework.CompletedTasks != nil\<close> changes nothing.\<close>

fun findTask_frameworks :: "string \<Rightarrow> mstateFramework list \<Rightarrow> taskInfo \<Rightarrow> taskInfo" where
  "findTask_frameworks appID [] ti = ti"
| "findTask_frameworks appID (framework # frameworks) ti =
     findTask_frameworks appID frameworks
       \<lparr>ti_Tasks = findTask_scan appID (fw_Tasks framework) (ti_Tasks ti),
        ti_CompletedTasks =
          findTask_scan appID (fw_CompletedTasks framework) (ti_CompletedTasks ti)\<rparr>"

definition findTask :: "masterState \<Rightarrow> string \<Rightarrow> taskInfo" where
  "findTask state appID =
     findTask_frameworks appID (ms_Frameworks state) \<lparr>ti_Tasks = [], ti_CompletedTasks = []\<rparr>"

text \<open>What the claims say \<open>findTask\<close> collects: the tasks of a list whose name or id is
  the identifier, in the list's order.\<close>

definition matching_tasks :: "string \<Rightarrow> mstateTask list \<Rightarrow> mstateTask list" where
  "matching_tasks appID tasks = filter (\<lambda>t. task_Name t = appID \<or> task_ID t = appID) tasks"

definition active_tasks :: "masterState \<Rightarrow> mstateTask list" where
  "active_tasks state = concat (map fw_Tasks (ms_Frameworks state))"

definition completed_tasks :: "masterState \<Rightarrow> mstateTask list" where
  "completed_tasks state = concat (map fw_CompletedTasks (ms_Frameworks state))"

definition with_last_state :: "mstateTask \<Rightarrow> mstateTask" where
  "with_last_state t = UpdateLastState t (findTaskLastState t)"

section \<open>Sandbox resolution\<close>

fun findSlave_loop :: "mstateSlave list \<Rightarrow> string \<Rightarrow> mstateSlave option" where
  "findSlave_loop [] slaveID = None"
| "findSlave_loop (slave # slaves) slaveID =
     (if slave_ID slave = slaveID then Some slave else findSlave_loop slaves slaveID)"

definition findSlave :: "masterState \<Rightarrow> string \<Rightarrow> mstateSlave option" where
  "findSlave state slaveID = findSlave_loop (ms_Slaves state) slaveID"

definition constructSlaveURL :: "mstateSlave \<Rightarrow> error + url" where
  "constructSlaveURL slave =
     (let parts = strings_SplitN (slave_Pid slave) (CHR ''@'') 2
      in if length parts < 2 then Inl (MalformedAddress (slave_Pid slave))
         else
           (let slaveName = parts ! 0;
                hostAndPort = strings_Split (parts ! 1) (CHR '':'');
                port = (if 1 < length hostAndPort then hostAndPort ! 1 else ''80'');
                host = slave_Hostname slave @ '':'' @ port;
                path = slaveName @ ''/state.json''
            in Inr \<lparr>url_Scheme = ''http'', url_Host = host,
                     url_Opaque = ''//'' @ host @ ''/'' @ path\<rparr>))"

text \<open>The loop of \<open>findDirectory\<close> over the executors of one framework: the directory
  of the first executor whose id is the task's executor id or the task's id.\<close>

fun findDirectory_executors :: "sstateExecutor list \<Rightarrow> mstateTask \<Rightarrow> string option" where
  "findDirectory_executors [] task = None"
| "findDirectory_executors (executor # executors) task =
     (if exec_ID executor = task_ExecutorID task \<or> exec_ID executor = task_ID task
      then Some (exec_Directory executor)
      else findDirectory_executors executors task)"

fun findDirectory_frameworks :: "sstateFramework list \<Rightarrow> mstateTask \<Rightarrow> bool \<Rightarrow> string" where
  "findDirectory_frameworks [] task completedTasks = []"
| "findDirectory_frameworks (framework # frameworks) task completedTasks =
     (if sfw_ID framework \<noteq> task_FrameworkID task
      then findDirectory_frameworks frameworks task completedTasks
      else
        (let executors =
               (if completedTasks then sfw_CompletedExecutors framework
                else sfw_Executors framework)
         in case findDirectory_executors executors task of
              Some directory \<Rightarrow> directory
            | None \<Rightarrow> findDirectory_frameworks frameworks task completedTasks))"

definition findDirectory :: "slaveState \<Rightarrow> mstateTask \<Rightarrow> bool \<Rightarrow> string" where
  "findDirectory sstate task completedTasks =
     findDirectory_frameworks (ss_Frameworks sstate) task completedTasks"

text \<open>
  \<open>getSlaveState\<close> fetches a slave's state over HTTP. The network is the parameter
  \<open>fetch\<close>: given the URL and the state \<open>'w\<close> of the world it answers with a decoded slave
  state or with the message of an error, and the world moves on.
\<close>

type_synonym 'w getSlaveState = "url \<Rightarrow> 'w \<Rightarrow> (string + slaveState) \<times> 'w"

definition getSlaveInfo ::
  "'w getSlaveState \<Rightarrow> MesosClient \<Rightarrow> mstateTask \<Rightarrow> 'w \<Rightarrow> (error + slaveInfo) \<times> 'w" where
  "getSlaveInfo fetch c task w =
     (case findSlave (client_State c) (task_SlaveID task) of
        None \<Rightarrow> (Inl NodeNotFound, w)
      | Some slave \<Rightarrow>
          (case constructSlaveURL slave of
             Inl err \<Rightarrow> (Inl err, w)
           | Inr slaveURL \<Rightarrow>
               (case fetch slaveURL w of
                  (Inl err, w') \<Rightarrow> (Inl (FetchError err), w')
                | (Inr slaveState, w') \<Rightarrow>
                    (let directory =
                           findDirectory slaveState task
                             (SearchCompletedTasks (client_Options c))
                     in if directory = [] then (Inl DirectoryNotFound, w')
                        else (Inr \<lparr>si_Slave = slave, si_State = slaveState,
                                    si_Directory = directory\<rparr>, w')))))"

text \<open>What the claims say \<open>findDirectory\<close> looks for: the executors, in the order the
  slave state lists them, of the frameworks whose id is the task's framework id, whose id
  is the task's executor id or the task's id. The collection read is the completed
  executors when \<open>completedTasks\<close> is set, the active ones otherwise.\<close>

definition matching_executors :: "slaveState \<Rightarrow> mstateTask \<Rightarrow> bool \<Rightarrow> sstateExecutor list" where
  "matching_executors sstate task completedTasks =
     filter (\<lambda>e. exec_ID e = task_ExecutorID task \<or> exec_ID e = task_ID task)
       (concat (map (\<lambda>f. if completedTasks then sfw_CompletedExecutors f else sfw_Executors f)
          (filter (\<lambda>f. sfw_ID f = task_FrameworkID task) (ss_Frameworks sstate))))"

text \<open>The port \<open>constructSlaveURL\<close> reads in the part of a process locator after its
  \<open>@\<close>: the text between the first \<open>:\<close> and the next one (or the end), and \<open>80\<close> when
  there is no \<open>:\<close>.\<close>

definition locator_port :: "string \<Rightarrow> string" where
  "locator_port rest =
     (if CHR '':'' \<in> set rest
      then takeWhile (\<lambda>x. x \<noteq> CHR '':'') (tl (dropWhile (\<lambda>x. x \<noteq> CHR '':'') rest))
      else ''80'')"

section \<open>The tasks \<open>GetLog\<close> iterates\<close>

text \<open>Modelled from the spec: the comparator \<open>SortTasksByLatestTimestamp\<close> handed to
  \<open>sort.Sort\<close> is declared outside \<open>client.go\<close>. The spec orders a group by descending
  timestamp of the latest status, the tasks without a status after those with one.\<close>

definition Less :: "mstateTask \<Rightarrow> mstateTask \<Rightarrow> bool" where
  "Less a b =
     (case task_LastState a of
        None \<Rightarrow> False
      | Some sa \<Rightarrow>
          (case task_LastState b of
             None \<Rightarrow> True
           | Some sb \<Rightarrow> status_Timestamp sb < status_Timestamp sa))"

text \<open>
  \<open>sort.Sort\<close> is Go's library sort. It is not stable, and which of the orders the
  comparator allows it leaves in the slice is its own business; so it is the parameter
  \<open>srt\<close> of \<open>GetLog\<close> here. What it promises for a slice is \<open>sort_Sort_ok\<close>: the result is a
  permutation of the slice in which no element is \<open>Less\<close> than an element before it.
\<close>

definition sort_Sort_ok :: "(mstateTask list \<Rightarrow> mstateTask list) \<Rightarrow> mstateTask list \<Rightarrow> bool" where
  "sort_Sort_ok srt tasks =
     (mset (srt tasks) = mset tasks \<and> sorted_wrt (\<lambda>a b. \<not> Less b a) (srt tasks))"



section \<open>Tailing\<close>

text \<open>Modelled from the spec: the type \<open>LogType\<close> and its method \<open>String\<close> are declared
  outside \<open>client.go\<close>. There are exactly two log kinds, standard output and standard
  error, each with a fixed file name.\<close>

datatype LogType = STDOUT | STDERR

fun LogType_String :: "LogType \<Rightarrow> string" where
  "LogType_String STDOUT = ''stdout''"
| "LogType_String STDERR = ''stderr''"

definition PageLength :: go_int where
  "PageLength = 5000"

text \<open>\<open>fmt.Sprintf(TailURIFmt, host, path, offset, length)\<close>.\<close>

definition TailURI :: "string \<Rightarrow> string \<Rightarrow> go_int \<Rightarrow> go_int \<Rightarrow> string" where
  "TailURI host path offset len =
     ''http://'' @ host @ '':5051/files/read.json?path='' @ path
       @ ''&offset='' @ int_decimal (sint offset) @ ''&length='' @ int_decimal (sint len)"

text \<open>\<open>time.Duration(duration) * time.Second\<close>, in nanoseconds.\<close>

definition poll_interval :: "go_int \<Rightarrow> 64 word" where
  "poll_interval duration = duration * 1000000000"

text \<open>
  What the goroutine of \<open>asyncTail\<close> does, in order: it requests a URL, prints an error,
  sleeps, sends a chunk on its channel, or dies in a panic (and the process with it).
\<close>

datatype event =
    Download string
  | Printf string
  | Sleep "64 word"
  | Send string
  | Crash panic

text \<open>
  The loop of the goroutine. It never ends by itself, so it is run against the list of
  the answers \<open>download\<close> gets, an error message or a response body, one for each request
  in turn; the trace ends with the request that is waiting for the next answer.
  \<open>unmarshal resp\<close> is what \<open>json.Unmarshal\<close> leaves in \<open>rd.Data\<close>: the data field of the
  response, and the empty string when the response does not decode.
\<close>

fun asyncTail_loop ::
  "(string \<Rightarrow> string) \<Rightarrow> mstateTask \<Rightarrow> slaveInfo \<Rightarrow> string \<Rightarrow> go_int \<Rightarrow> go_int
     \<Rightarrow> (string + string) list \<Rightarrow> event list" where
  "asyncTail_loop unmarshal task s path duration offset [] =
     [Download (TailURI (slave_Hostname (si_Slave s)) path offset PageLength)]"
| "asyncTail_loop unmarshal task s path duration offset (answer # answers) =
     Download (TailURI (slave_Hostname (si_Slave s)) path offset PageLength) #
     (case answer of
        Inl err \<Rightarrow>
          Printf (''Error: '' @ err)
            # asyncTail_loop unmarshal task s path duration offset answers
      | Inr resp \<Rightarrow>
          (let data = unmarshal resp
           in if length data < 5
              then Sleep (poll_interval duration)
                     # asyncTail_loop unmarshal task s path duration offset answers
              else
                (let offset' = offset + of_nat (length data)
                 in case decorateLog (task_ID task) data of
                      Inl p \<Rightarrow> [Crash p]
                    | Inr chunk \<Rightarrow>
                        Send chunk
                          # asyncTail_loop unmarshal task s path duration offset' answers)))"

definition asyncTail ::
  "(string \<Rightarrow> string) \<Rightarrow> mstateTask \<Rightarrow> slaveInfo \<Rightarrow> LogType \<Rightarrow> go_int
     \<Rightarrow> (string + string) list \<Rightarrow> event list" where
  "asyncTail unmarshal task s lt duration answers =
     (let path = si_Directory s @ ''/'' @ LogType_String lt
      in asyncTail_loop unmarshal task s path duration 0 answers)"

section \<open>Starting the tailers\<close>

text \<open>A goroutine started by \<open>c.asyncTail(task, slaveInfo, logtype, duration)\<close>.\<close>

record tailer =
  tailer_task :: mstateTask
  tailer_slaveInfo :: slaveInfo
  tailer_logtype :: LogType
  tailer_duration :: go_int

text \<open>The loop of \<open>TailLogToChannel\<close> over the tasks; \<open>chans\<close> holds the tailers started
  so far. It stops at the first task whose sandbox does not resolve and returns that
  error; the tailers already started keep running.\<close>

fun TailLogToChannel_loop ::
  "'w getSlaveState \<Rightarrow> MesosClient \<Rightarrow> LogType \<Rightarrow> go_int \<Rightarrow> mstateTask list \<Rightarrow> tailer list
     \<Rightarrow> 'w \<Rightarrow> error option \<times> tailer list \<times> 'w" where
  "TailLogToChannel_loop fetch c logtype duration [] chans w = (None, chans, w)"
| "TailLogToChannel_loop fetch c logtype duration (task # tasks) chans w =
     (case getSlaveInfo fetch c task w of
        (Inl err, w') \<Rightarrow> (Some err, chans, w')
      | (Inr slaveInfo, w') \<Rightarrow>
          TailLogToChannel_loop fetch c logtype duration tasks
            (chans @ [\<lparr>tailer_task = task, tailer_slaveInfo = slaveInfo,
                        tailer_logtype = logtype, tailer_duration = duration\<rparr>]) w')"

text \<open>\<open>TailLogToChannel\<close> up to the merge: the error it returns, if any, and the tailers
  it has started. With no error it goes on to merge the tailers and to forward their
  output until it is told to stop.\<close>

definition TailLogToChannel ::
  "'w getSlaveState \<Rightarrow> MesosClient \<Rightarrow> string \<Rightarrow> LogType \<Rightarrow> go_int \<Rightarrow> 'w
     \<Rightarrow> error option \<times> tailer list \<times> 'w" where
  "TailLogToChannel fetch c appID logtype duration w =
     (let tasks = ti_Tasks (findTask (client_State c) appID)
      in if length tasks = 0 then (Some NotFound, [], w)
         else TailLogToChannel_loop fetch c logtype duration tasks [] w)"

section \<open>A small cluster\<close>

text \<open>One framework \<open>F1\<close> on one node \<open>S1\<close>; the inputs of the examples below.\<close>

definition ex_task :: "string \<Rightarrow> string \<Rightarrow> real list \<Rightarrow> mstateTask" where
  "ex_task tid name stamps =
     \<lparr>task_ExecutorID = [], task_FrameworkID = ''F1'', task_ID = tid, task_Name = name,
      task_SlaveID = ''S1'', task_Statuses = map (\<lambda>t. \<lparr>status_Timestamp = t\<rparr>) stamps,
      task_LastState = None\<rparr>"

definition ex_slave :: "string \<Rightarrow> mstateSlave" where
  "ex_slave pid = \<lparr>slave_ID = ''S1'', slave_Hostname = ''node1'', slave_Pid = pid\<rparr>"

definition ex_master :: "mstateTask list \<Rightarrow> mstateTask list \<Rightarrow> string \<Rightarrow> masterState" where
  "ex_master active completed pid =
     \<lparr>ms_Frameworks = [\<lparr>fw_Tasks = active, fw_CompletedTasks = completed\<rparr>],
      ms_Slaves = [ex_slave pid]\<rparr>"

definition ex_client :: "masterState \<Rightarrow> bool \<Rightarrow> bool \<Rightarrow> MesosClient" where
  "ex_client state completed latest =
     \<lparr>client_Host = ''master'', client_Port = 5050, client_MasterURL = ''http://master:5050'',
      client_State = state,
      client_Options = \<lparr>SearchCompletedTasks = completed, ShowLatestOnly = latest\<rparr>\<rparr>"

definition ex_slaveState :: "sstateExecutor list \<Rightarrow> sstateExecutor list \<Rightarrow> slaveState" where
  "ex_slaveState active completed =
     \<lparr>ss_Frameworks =
        [\<lparr>sfw_ID = ''F1'', sfw_Executors = active, sfw_CompletedExecutors = completed\<rparr>]\<rparr>"

text \<open>A network that answers every request with the same slave state.\<close>

definition ex_fetch :: "slaveState \<Rightarrow> unit getSlaveState" where
  "ex_fetch sstate u w = (Inr sstate, w)"

section \<open>Facts about the string functions\<close>

lemma strings_Index_absent: "c \<notin> set s \<Longrightarrow> strings_Index s c = - 1"
  by (induction s) auto

lemma strings_Index_first:
  "c \<notin> set p \<Longrightarrow> strings_Index (p @ c # r) c = int (length p)"
  by (induction p) (auto simp: Let_def)

lemma dropWhile_first: "c \<notin> set p \<Longrightarrow> dropWhile (\<lambda>x. x \<noteq> c) (p @ c # r) = c # r"
  by (induction p) auto

lemma in_tl_dropWhile: "x \<in> set (tl (dropWhile P xs)) \<Longrightarrow> x \<in> set xs"
  by (induction xs) (auto split: if_splits)

lemma split_at_first:
  "c \<in> set s \<Longrightarrow> s = takeWhile (\<lambda>x. x \<noteq> c) s @ c # tl (dropWhile (\<lambda>x. x \<noteq> c) s)"
  by (induction s) auto

lemma strings_Split_nonempty: "strings_Split s c \<noteq> []"
  by (induction s) (auto split: list.splits)

lemma strings_Split_pieces: "p \<in> set (strings_Split s c) \<Longrightarrow> c \<notin> set p"
  by (induction s arbitrary: p) (auto split: list.splits if_splits)

lemma strings_Join_Split: "strings_Join (strings_Split s c) c = s"
proof (induction s)
  case Nil
  show ?case by simp
next
  case (Cons x xs)
  obtain p ps where sp: "strings_Split xs c = p # ps"
    using strings_Split_nonempty [of xs c] by (cases "strings_Split xs c") auto
  show ?case
  proof (cases "x = c")
    case True
    with Cons sp show ?thesis by simp
  next
    case False
    with Cons sp show ?thesis by (cases ps) auto
  qed
qed

lemma strings_Split_absent: "c \<notin> set s \<Longrightarrow> strings_Split s c = [s]"
  by (induction s) auto

lemma strings_Split_first:
  "c \<notin> set p \<Longrightarrow> strings_Split (p @ c # r) c = p # strings_Split r c"
  by (induction p) auto

lemma hd_strings_Split: "hd (strings_Split s c) = takeWhile (\<lambda>x. x \<noteq> c) s"
  using strings_Split_nonempty [of _ c] by (induction s) (auto split: list.splits)

lemma tl_strings_Split:
  "tl (strings_Split s c) =
     (if c \<in> set s then strings_Split (tl (dropWhile (\<lambda>x. x \<noteq> c) s)) c else [])"
  using strings_Split_nonempty [of _ c] by (induction s) (auto split: list.splits)

lemma splitN_pieces_one: "splitN_pieces s c (Suc 0) = [s]"
  by (induction s) auto

lemma splitN_pieces_absent: "c \<notin> set s \<Longrightarrow> splitN_pieces s c k = [s]"
  by (induction s) auto

lemma splitN_pieces_two: "c \<notin> set p \<Longrightarrow> splitN_pieces (p @ c # r) c 2 = [p, r]"
  by (induction p) (auto simp: splitN_pieces_one)

lemma strings_SplitN_two_present:
  "c \<notin> set p \<Longrightarrow> strings_SplitN (p @ c # r) c 2 = [p, r]"
  by (simp add: strings_SplitN_def splitN_pieces_two)

lemma strings_SplitN_two_absent: "c \<notin> set s \<Longrightarrow> strings_SplitN s c 2 = [s]"
  by (simp add: strings_SplitN_def splitN_pieces_absent)

text \<open>The definitions a concrete input is evaluated with.\<close>

lemmas ex_defs = ex_task_def ex_slave_def ex_master_def ex_client_def ex_slaveState_def ex_fetch_def

lemmas resolve_defs = getSlaveInfo_def findSlave_def constructSlaveURL_def strings_SplitN_def
  findDirectory_def

lemmas find_defs = findTask_def findTaskLastState_def UpdateLastState_def with_last_state_def

lemmas tail_defs = asyncTail_def TailURI_def PageLength_def int_decimal_def digit_char_def
  poll_interval_def decorateLog_def slice_def slice_from_def

section \<open>Decorating a chunk\<close>

lemma write_lines_concat:
  "write_lines dec ls buf =
     buf @ concat (map (\<lambda>l. ''['' @ dec @ ''] '' @ l @ [CHR 0x0A]) (filter (\<lambda>l. l \<noteq> []) ls))"
  by (induction ls arbitrary: buf) auto

lemma decorateLog_well_formed:
  assumes "CHR ''.'' \<notin> set p" and "CHR ''-'' \<notin> set s"
  shows "decorateLog (p @ CHR ''.'' # s @ CHR ''-'' # rest) data =
           Inr (write_lines (p @ ''.'' @ s) (strings_Split data (CHR 0x0A)) [])"
proof -
  let ?name = "p @ CHR ''.'' # s @ CHR ''-'' # rest"
  have idx: "strings_Index ?name (CHR ''.'') = int (length p)"
    using assms(1) by (rule strings_Index_first)
  have dec: "slice ?name 0 (int (length p)) = Inr p"
    by (simp add: slice_def)
  have tid: "slice_from ?name (int (length p) + 1) = Inr (s @ CHR ''-'' # rest)"
    by (simp add: slice_from_def slice_def nat_add_distrib)
  have idx2: "strings_Index (s @ CHR ''-'' # rest) (CHR ''-'') = int (length s)"
    using assms(2) by (rule strings_Index_first)
  have short: "slice (s @ CHR ''-'' # rest) 0 (int (length s)) = Inr s"
    by (simp add: slice_def)
  show ?thesis
    unfolding decorateLog_def Let_def idx dec tid by (simp add: idx2 short)
qed

lemma id_has_separators_split:
  "id_has_separators name \<longleftrightarrow>
     (\<exists>p s rest. name = p @ CHR ''.'' # s @ CHR ''-'' # rest \<and> CHR ''.'' \<notin> set p \<and> CHR ''-'' \<notin> set s)"
proof
  assume h: "id_has_separators name"
  let ?p = "takeWhile (\<lambda>x. x \<noteq> CHR ''.'') name"
  let ?r = "tl (dropWhile (\<lambda>x. x \<noteq> CHR ''.'') name)"
  from h have dot: "CHR ''.'' \<in> set name" and dash: "CHR ''-'' \<in> set ?r"
    by (simp_all add: id_has_separators_def)
  have name: "name = ?p @ CHR ''.'' # ?r"
    using dot by (rule split_at_first)
  from dash obtain s rest where r: "?r = s @ CHR ''-'' # rest" and s: "CHR ''-'' \<notin> set s"
    by (auto dest: split_list_first)
  have "CHR ''.'' \<notin> set ?p" by (auto dest: set_takeWhileD)
  with name r s show "\<exists>p s rest. name = p @ CHR ''.'' # s @ CHR ''-'' # rest \<and> CHR ''.'' \<notin> set p \<and> CHR ''-'' \<notin> set s"
    by metis
next
  assume "\<exists>p s rest. name = p @ CHR ''.'' # s @ CHR ''-'' # rest \<and> CHR ''.'' \<notin> set p \<and> CHR ''-'' \<notin> set s"
  then obtain p s rest where n: "name = p @ CHR ''.'' # s @ CHR ''-'' # rest"
    and p: "CHR ''.'' \<notin> set p" by blast
  from p have "dropWhile (\<lambda>x. x \<noteq> CHR ''.'') name = CHR ''.'' # s @ CHR ''-'' # rest"
    unfolding n by (simp add: dropWhile_first)
  then show "id_has_separators name"
    by (simp add: id_has_separators_def n)
qed

lemma decorateLog_no_dot:
  "CHR ''.'' \<notin> set name \<Longrightarrow> decorateLog name data = Inl SliceBoundsOutOfRange"
  by (simp add: decorateLog_def strings_Index_absent slice_def)

lemma decorateLog_no_dash:
  assumes "CHR ''.'' \<in> set name"
    and "CHR ''-'' \<notin> set (tl (dropWhile (\<lambda>x. x \<noteq> CHR ''.'') name))"
  shows "decorateLog name data = Inl SliceBoundsOutOfRange"
proof -
  let ?p = "takeWhile (\<lambda>x. x \<noteq> CHR ''.'') name"
  let ?r = "tl (dropWhile (\<lambda>x. x \<noteq> CHR ''.'') name)"
  have name: "name = ?p @ CHR ''.'' # ?r"
    using assms(1) by (rule split_at_first)
  have p: "CHR ''.'' \<notin> set ?p" by (auto dest: set_takeWhileD)
  have idx: "strings_Index (?p @ CHR ''.'' # ?r) (CHR ''.'') = int (length ?p)"
    using p by (rule strings_Index_first)
  have dec: "slice (?p @ CHR ''.'' # ?r) 0 (int (length ?p)) = Inr ?p"
    by (simp add: slice_def)
  have tid: "slice_from (?p @ CHR ''.'' # ?r) (int (length ?p) + 1) = Inr ?r"
    by (simp add: slice_from_def slice_def nat_add_distrib)
  have idx2: "strings_Index ?r (CHR ''-'') = - 1"
    using assms(2) by (rule strings_Index_absent)
  have "decorateLog (?p @ CHR ''.'' # ?r) data = Inl SliceBoundsOutOfRange"
    unfolding decorateLog_def Let_def idx dec tid by (simp add: idx2 slice_def)
  with name show ?thesis by simp
qed

text \<open>
  Claim C5. \<open>decorateLog\<close> on the task id \<open>webapp.1234abcd-5678\<close> and the payload of the two
  lines \<open>line1\<close> and \<open>line2\<close>, each ended by a newline, gives exactly the two lines with
  \<open>[webapp.1234abcd]\<close> and a space in front of each. In general, for an id \<open>p.s-rest\<close> with
  no \<open>.\<close> in \<open>p\<close> and no \<open>-\<close> in \<open>s\<close>, every empty line of the payload is dropped and every
  other line comes out as \<open>[p.s]\<close>, a space, the line and a newline, in the payload's order.
\<close>

theorem decorateLog_example_and_lines:
  "decorateLog ''webapp.1234abcd-5678'' ''line1\<newline>line2\<newline>''
     = Inr ''[webapp.1234abcd] line1\<newline>[webapp.1234abcd] line2\<newline>''
   \<and> (CHR ''.'' \<notin> set p \<and> CHR ''-'' \<notin> set s \<longrightarrow>
        decorateLog (p @ ''.'' @ s @ ''-'' @ rest) data =
          Inr (concat (map (\<lambda>l. ''['' @ p @ ''.'' @ s @ ''] '' @ l @ ''\<newline>'')
                 (filter (\<lambda>l. l \<noteq> []) (strings_Split data CHR ''\<newline>'')))))"
proof (intro conjI impI)
  show "decorateLog ''webapp.1234abcd-5678'' ''line1\<newline>line2\<newline>''
     = Inr ''[webapp.1234abcd] line1\<newline>[webapp.1234abcd] line2\<newline>''"
    by (simp add: decorateLog_def slice_def slice_from_def)
next
  assume "CHR ''.'' \<notin> set p \<and> CHR ''-'' \<notin> set s"
  then show "decorateLog (p @ ''.'' @ s @ ''-'' @ rest) data =
          Inr (concat (map (\<lambda>l. ''['' @ p @ ''.'' @ s @ ''] '' @ l @ ''\<newline>'')
                 (filter (\<lambda>l. l \<noteq> []) (strings_Split data CHR ''\<newline>''))))"
    using decorateLog_well_formed [of p s rest data] by (simp add: write_lines_concat)
qed

text \<open>Claim C5 at an id and a payload with an empty line in the middle and no newline at
  the end.\<close>

theorem decorateLog_example_and_lines_witness:
  "CHR ''.'' \<notin> set ''app'' \<and> CHR ''-'' \<notin> set ''1f''
   \<and> decorateLog ''app.1f-7'' ''a\<newline>\<newline>b'' = Inr ''[app.1f] a\<newline>[app.1f] b\<newline>''"
  using decorateLog_example_and_lines [of "''app''" "''1f''" "''7''" "''a\<newline>\<newline>b''"]
  by simp

text \<open>
  Claim C6. \<open>decorateLog\<close> returns a string for every task id that holds a \<open>.\<close> and a \<open>-\<close>
  after its first \<open>.\<close>, whatever the payload; for every other id it panics on a slice
  bound out of range, and the ids without a \<open>.\<close> or without a \<open>-\<close> are among those.
\<close>

theorem decorateLog_defined_iff_separators:
  "(id_has_separators name \<longrightarrow> (\<exists>out. decorateLog name data = Inr out))
   \<and> (\<not> id_has_separators name \<longrightarrow> decorateLog name data = Inl SliceBoundsOutOfRange)
   \<and> (CHR ''.'' \<notin> set name \<or> CHR ''-'' \<notin> set name \<longrightarrow> \<not> id_has_separators name)"
proof (intro conjI impI)
  assume "id_has_separators name"
  then obtain p s rest where "name = p @ CHR ''.'' # s @ CHR ''-'' # rest"
    and "CHR ''.'' \<notin> set p" and "CHR ''-'' \<notin> set s"
    unfolding id_has_separators_split by blast
  then show "\<exists>out. decorateLog name data = Inr out"
    using decorateLog_well_formed [of p s rest data] by simp
next
  assume "\<not> id_has_separators name"
  then show "decorateLog name data = Inl SliceBoundsOutOfRange"
    using decorateLog_no_dot [of name data] decorateLog_no_dash [of name data]
    unfolding id_has_separators_def by blast
next
  assume "CHR ''.'' \<notin> set name \<or> CHR ''-'' \<notin> set name"
  then show "\<not> id_has_separators name"
    unfolding id_has_separators_def
    by (auto dest: in_tl_dropWhile)
qed

text \<open>Claim C6 at an id of the expected form, at one whose only \<open>-\<close> is before the \<open>.\<close>,
  and at one with no separator.\<close>

theorem decorateLog_defined_iff_separators_witness:
  "id_has_separators ''webapp.1234abcd-5678''
   \<and> (\<exists>out. decorateLog ''webapp.1234abcd-5678'' ''line1'' = Inr out)
   \<and> \<not> id_has_separators ''web-app.1234abcd''
   \<and> decorateLog ''web-app.1234abcd'' ''line1'' = Inl SliceBoundsOutOfRange
   \<and> \<not> id_has_separators ''webapp''
   \<and> decorateLog ''webapp'' ''line1'' = Inl SliceBoundsOutOfRange"
  using decorateLog_defined_iff_separators [of "''webapp.1234abcd-5678''" "''line1''"]
    decorateLog_defined_iff_separators [of "''web-app.1234abcd''" "''line1''"]
    decorateLog_defined_iff_separators [of "''webapp''" "''line1''"]
  by (simp add: id_has_separators_def)

section \<open>Resolving the tasks\<close>

lemma findTask_scan_filter:
  "findTask_scan appID tasks acc = acc @ map with_last_state (matching_tasks appID tasks)"
  by (induction tasks arbitrary: acc) (auto simp: matching_tasks_def with_last_state_def)

lemma matching_tasks_append:
  "matching_tasks appID (xs @ ys) = matching_tasks appID xs @ matching_tasks appID ys"
  by (simp add: matching_tasks_def)

lemma findTask_frameworks_filter:
  "findTask_frameworks appID fs ti =
     \<lparr>ti_Tasks = ti_Tasks ti @ map with_last_state (matching_tasks appID (concat (map fw_Tasks fs))),
      ti_CompletedTasks = ti_CompletedTasks ti
        @ map with_last_state (matching_tasks appID (concat (map fw_CompletedTasks fs)))\<rparr>"
proof (induction fs arbitrary: ti)
  case Nil
  show ?case by (cases ti) (simp add: matching_tasks_def)
next
  case (Cons f fs)
  show ?case by (simp add: Cons.IH findTask_scan_filter matching_tasks_append)
qed

lemma findTask_Tasks:
  "ti_Tasks (findTask state appID) = map with_last_state (matching_tasks appID (active_tasks state))"
  by (simp add: findTask_def findTask_frameworks_filter active_tasks_def)

lemma findTask_CompletedTasks:
  "ti_CompletedTasks (findTask state appID) =
     map with_last_state (matching_tasks appID (completed_tasks state))"
  by (simp add: findTask_def findTask_frameworks_filter completed_tasks_def)


lemma findTask_Tasks_plain:
  "ti_Tasks (findTask state appID) =
     map (\<lambda>t. t\<lparr>task_LastState := findTaskLastState t\<rparr>)
       (filter (\<lambda>t. task_Name t = appID \<or> task_ID t = appID)
          (concat (map fw_Tasks (ms_Frameworks state))))"
proof -
  have "with_last_state = (\<lambda>t. t\<lparr>task_LastState := findTaskLastState t\<rparr>)"
    by (rule ext) (simp add: with_last_state_def UpdateLastState_def)
  then show ?thesis
    using findTask_Tasks [of state appID] by (simp add: matching_tasks_def active_tasks_def)
qed

text \<open>
  Claim C1. For every cluster state and identifier, \<open>findTask\<close> returns exactly the tasks
  whose name or id is the identifier, each with its latest status recorded: the active
  group holds the matching tasks of the frameworks' active lists and the completed group
  those of the completed lists, in the order of the state; no task of either group fails
  to match, and every matching task of a list is in the list's group.
\<close>

theorem findTask_exact_partition:
  "ti_Tasks (findTask state appID) =
     map (\<lambda>t. t\<lparr>task_LastState := findTaskLastState t\<rparr>)
       (filter (\<lambda>t. task_Name t = appID \<or> task_ID t = appID)
          (concat (map fw_Tasks (ms_Frameworks state))))
   \<and> ti_CompletedTasks (findTask state appID) =
     map (\<lambda>t. t\<lparr>task_LastState := findTaskLastState t\<rparr>)
       (filter (\<lambda>t. task_Name t = appID \<or> task_ID t = appID)
          (concat (map fw_CompletedTasks (ms_Frameworks state))))
   \<and> (\<forall>t \<in> set (ti_Tasks (findTask state appID)) \<union> set (ti_CompletedTasks (findTask state appID)).
         task_Name t = appID \<or> task_ID t = appID)
   \<and> (\<forall>f \<in> set (ms_Frameworks state). \<forall>t \<in> set (fw_Tasks f).
         task_Name t = appID \<or> task_ID t = appID \<longrightarrow>
           t\<lparr>task_LastState := findTaskLastState t\<rparr> \<in> set (ti_Tasks (findTask state appID)))
   \<and> (\<forall>f \<in> set (ms_Frameworks state). \<forall>t \<in> set (fw_CompletedTasks f).
         task_Name t = appID \<or> task_ID t = appID \<longrightarrow>
           t\<lparr>task_LastState := findTaskLastState t\<rparr>
             \<in> set (ti_CompletedTasks (findTask state appID)))"
proof -
  have w: "with_last_state = (\<lambda>t. t\<lparr>task_LastState := findTaskLastState t\<rparr>)"
    by (rule ext) (simp add: with_last_state_def UpdateLastState_def)
  have a: "ti_Tasks (findTask state appID) =
     map (\<lambda>t. t\<lparr>task_LastState := findTaskLastState t\<rparr>)
       (filter (\<lambda>t. task_Name t = appID \<or> task_ID t = appID)
          (concat (map fw_Tasks (ms_Frameworks state))))"
    using findTask_Tasks [of state appID]
    by (simp add: w matching_tasks_def active_tasks_def)
  have c: "ti_CompletedTasks (findTask state appID) =
     map (\<lambda>t. t\<lparr>task_LastState := findTaskLastState t\<rparr>)
       (filter (\<lambda>t. task_Name t = appID \<or> task_ID t = appID)
          (concat (map fw_CompletedTasks (ms_Frameworks state))))"
    using findTask_CompletedTasks [of state appID]
    by (simp add: w matching_tasks_def completed_tasks_def)
  have m: "\<forall>t \<in> set (ti_Tasks (findTask state appID)) \<union> set (ti_CompletedTasks (findTask state appID)).
         task_Name t = appID \<or> task_ID t = appID"
    unfolding a c by auto
  have ia: "\<forall>f \<in> set (ms_Frameworks state). \<forall>t \<in> set (fw_Tasks f).
         task_Name t = appID \<or> task_ID t = appID \<longrightarrow>
           t\<lparr>task_LastState := findTaskLastState t\<rparr> \<in> set (ti_Tasks (findTask state appID))"
    unfolding a by auto
  have ic: "\<forall>f \<in> set (ms_Frameworks state). \<forall>t \<in> set (fw_CompletedTasks f).
         task_Name t = appID \<or> task_ID t = appID \<longrightarrow>
           t\<lparr>task_LastState := findTaskLastState t\<rparr>
             \<in> set (ti_CompletedTasks (findTask state appID))"
    unfolding c by auto
  from a c m ia ic show ?thesis by blast
qed

text \<open>Claim C1 on two frameworks: the identifier is the name of one active task, the id of
  another and the name of a completed one.\<close>

theorem findTask_exact_partition_witness:
  "findTask
     \<lparr>ms_Frameworks =
        [\<lparr>fw_Tasks = [ex_task ''webapp.a-1'' ''webapp'' [1, 5], ex_task ''db.b-2'' ''db'' [2]],
          fw_CompletedTasks = [ex_task ''webapp.c-3'' ''webapp'' []]\<rparr>,
         \<lparr>fw_Tasks = [ex_task ''webapp'' ''other'' [3]],
          fw_CompletedTasks = [ex_task ''db.d-4'' ''db'' [4]]\<rparr>],
      ms_Slaves = []\<rparr> ''webapp''
   = \<lparr>ti_Tasks = [(ex_task ''webapp.a-1'' ''webapp'' [1, 5])
                      \<lparr>task_LastState := Some \<lparr>status_Timestamp = 5\<rparr>\<rparr>,
                   (ex_task ''webapp'' ''other'' [3])
                      \<lparr>task_LastState := Some \<lparr>status_Timestamp = 3\<rparr>\<rparr>],
      ti_CompletedTasks = [ex_task ''webapp.c-3'' ''webapp'' []]\<rparr>"
  using findTask_exact_partition [of
      "\<lparr>ms_Frameworks =
        [\<lparr>fw_Tasks = [ex_task ''webapp.a-1'' ''webapp'' [1, 5], ex_task ''db.b-2'' ''db'' [2]],
          fw_CompletedTasks = [ex_task ''webapp.c-3'' ''webapp'' []]\<rparr>,
         \<lparr>fw_Tasks = [ex_task ''webapp'' ''other'' [3]],
          fw_CompletedTasks = [ex_task ''db.d-4'' ''db'' [4]]\<rparr>],
      ms_Slaves = []\<rparr>" "''webapp''"]
  by (simp add: find_defs ex_defs)

section \<open>The address of a node\<close>

lemma port_of_split:
  "(if 1 < length (strings_Split rest (CHR '':'')) then strings_Split rest (CHR '':'') ! 1 else ''80'')
     = locator_port rest"
proof (cases "CHR '':'' \<in> set rest")
  case False
  then show ?thesis by (simp add: strings_Split_absent locator_port_def)
next
  case True
  let ?r = "tl (dropWhile (\<lambda>x. x \<noteq> CHR '':'') rest)"
  obtain p ps where sp: "strings_Split rest (CHR '':'') = p # ps"
    using strings_Split_nonempty [of rest "CHR '':''"] by (cases "strings_Split rest (CHR '':'')") auto
  have ps: "ps = strings_Split ?r (CHR '':'')"
    using tl_strings_Split [of rest "CHR '':''"] True sp by simp
  obtain q qs where sq: "strings_Split ?r (CHR '':'') = q # qs"
    using strings_Split_nonempty [of ?r "CHR '':''"] by (cases "strings_Split ?r (CHR '':'')") auto
  have "q = takeWhile (\<lambda>x. x \<noteq> CHR '':'') ?r"
    using hd_strings_Split [of ?r "CHR '':''"] sq by simp
  with sp ps sq True show ?thesis by (simp add: locator_port_def)
qed

lemma constructSlaveURL_present:
  assumes "slave_Pid slave = name @ CHR ''@'' # rest" and "CHR ''@'' \<notin> set name"
  shows "constructSlaveURL slave =
           Inr \<lparr>url_Scheme = ''http'',
                url_Host = slave_Hostname slave @ '':'' @ locator_port rest,
                url_Opaque = ''//'' @ slave_Hostname slave @ '':'' @ locator_port rest
                               @ ''/'' @ name @ ''/state.json''\<rparr>"
proof -
  have parts: "strings_SplitN (slave_Pid slave) (CHR ''@'') 2 = [name, rest]"
    unfolding assms(1) using assms(2) by (rule strings_SplitN_two_present)
  show ?thesis
    unfolding constructSlaveURL_def parts Let_def
    using port_of_split [of rest] by (simp split: if_splits)
qed

lemma constructSlaveURL_absent:
  assumes "CHR ''@'' \<notin> set (slave_Pid slave)"
  shows "constructSlaveURL slave = Inl (MalformedAddress (slave_Pid slave))"
  using assms by (simp add: constructSlaveURL_def strings_SplitN_two_absent)

lemma locator_port_with_port:
  "CHR '':'' \<notin> set h \<Longrightarrow> CHR '':'' \<notin> set p \<Longrightarrow> locator_port (h @ CHR '':'' # p) = p"
  by (auto simp: locator_port_def dropWhile_first)

lemma locator_port_without_port: "CHR '':'' \<notin> set h \<Longrightarrow> locator_port h = ''80''"
  by (simp add: locator_port_def)

lemma constructSlaveURL_cases:
  "constructSlaveURL slave =
     (if CHR ''@'' \<in> set (slave_Pid slave)
      then Inr \<lparr>url_Scheme = ''http'',
             url_Host = slave_Hostname slave @ '':''
               @ locator_port (tl (dropWhile (\<lambda>x. x \<noteq> CHR ''@'') (slave_Pid slave))),
             url_Opaque = ''//'' @ slave_Hostname slave @ '':''
               @ locator_port (tl (dropWhile (\<lambda>x. x \<noteq> CHR ''@'') (slave_Pid slave)))
               @ ''/'' @ takeWhile (\<lambda>x. x \<noteq> CHR ''@'') (slave_Pid slave) @ ''/state.json''\<rparr>
      else Inl (MalformedAddress (slave_Pid slave)))"
proof (cases "CHR ''@'' \<in> set (slave_Pid slave)")
  case False
  then show ?thesis by (simp add: constructSlaveURL_absent)
next
  case True
  have "CHR ''@'' \<notin> set (takeWhile (\<lambda>x. x \<noteq> CHR ''@'') (slave_Pid slave))"
    by (auto dest: set_takeWhileD)
  with True show ?thesis
    using constructSlaveURL_present [OF split_at_first [OF True]] by simp
qed

lemma constructSlaveURL_error:
  "constructSlaveURL slave = Inl err \<Longrightarrow> err = MalformedAddress (slave_Pid slave)"
  by (auto simp: constructSlaveURL_cases split: if_splits)

text \<open>
  Claim C8. For a node whose process locator is \<open>name@rest\<close>, with no \<open>@\<close> in \<open>name\<close>, the
  URL \<open>constructSlaveURL\<close> builds has as host the node's \<open>hostname\<close> field, a colon and the
  port read in \<open>rest\<close>, and as path \<open>name\<close> followed by \<open>/state.json\<close>. The port is \<open>80\<close> when
  \<open>rest\<close> holds no colon, and \<open>p\<close> when \<open>rest\<close> is \<open>h:p\<close> with no colon in \<open>h\<close> or \<open>p\<close>: the
  host text \<open>h\<close> of the locator is in no part of the URL.
\<close>

theorem constructSlaveURL_uses_hostname:
  "CHR ''@'' \<notin> set name \<and> slave_Pid slave = name @ ''@'' @ rest \<longrightarrow>
     constructSlaveURL slave =
       Inr \<lparr>url_Scheme = ''http'',
            url_Host = slave_Hostname slave @ '':'' @ locator_port rest,
            url_Opaque = ''//'' @ slave_Hostname slave @ '':'' @ locator_port rest
                           @ ''/'' @ name @ ''/state.json''\<rparr>
     \<and> (CHR '':'' \<notin> set rest \<longrightarrow> locator_port rest = ''80'')
     \<and> (\<forall>h p. rest = h @ '':'' @ p \<and> CHR '':'' \<notin> set h \<and> CHR '':'' \<notin> set p \<longrightarrow>
            locator_port rest = p)"
proof (intro impI conjI allI)
  assume a: "CHR ''@'' \<notin> set name \<and> slave_Pid slave = name @ ''@'' @ rest"
  then show "constructSlaveURL slave =
       Inr \<lparr>url_Scheme = ''http'',
            url_Host = slave_Hostname slave @ '':'' @ locator_port rest,
            url_Opaque = ''//'' @ slave_Hostname slave @ '':'' @ locator_port rest
                           @ ''/'' @ name @ ''/state.json''\<rparr>"
    using constructSlaveURL_present [of slave name rest] by simp
next
  assume "CHR '':'' \<notin> set rest"
  then show "locator_port rest = ''80''" by (rule locator_port_without_port)
next
  fix h p
  assume "rest = h @ '':'' @ p \<and> CHR '':'' \<notin> set h \<and> CHR '':'' \<notin> set p"
  then show "locator_port rest = p"
    using locator_port_with_port [of h p] by simp
qed

text \<open>Claim C8 at a locator with a port and at one without.\<close>

theorem constructSlaveURL_uses_hostname_witness:
  "CHR ''@'' \<notin> set ''slave(1)''
   \<and> constructSlaveURL \<lparr>slave_ID = ''S1'', slave_Hostname = ''node1.example.org'',
          slave_Pid = ''slave(1)@10.0.0.5:5051''\<rparr>
       = Inr \<lparr>url_Scheme = ''http'', url_Host = ''node1.example.org:5051'',
              url_Opaque = ''//node1.example.org:5051/slave(1)/state.json''\<rparr>
   \<and> constructSlaveURL \<lparr>slave_ID = ''S1'', slave_Hostname = ''node1.example.org'',
          slave_Pid = ''slave(1)@10.0.0.5''\<rparr>
       = Inr \<lparr>url_Scheme = ''http'', url_Host = ''node1.example.org:80'',
              url_Opaque = ''//node1.example.org:80/slave(1)/state.json''\<rparr>"
  using constructSlaveURL_uses_hostname [of "''slave(1)''"
      "\<lparr>slave_ID = ''S1'', slave_Hostname = ''node1.example.org'',
          slave_Pid = ''slave(1)@10.0.0.5:5051''\<rparr>" "''10.0.0.5:5051''"]
    constructSlaveURL_uses_hostname [of "''slave(1)''"
      "\<lparr>slave_ID = ''S1'', slave_Hostname = ''node1.example.org'',
          slave_Pid = ''slave(1)@10.0.0.5''\<rparr>" "''10.0.0.5''"]
  by (simp add: locator_port_def)

section \<open>Resolving the sandbox\<close>

lemma findSlave_loop_find:
  "findSlave_loop slaves slaveID = find (\<lambda>s. slave_ID s = slaveID) slaves"
  by (induction slaves) auto

lemma findSlave_find:
  "findSlave state slaveID = find (\<lambda>s. slave_ID s = slaveID) (ms_Slaves state)"
  by (simp add: findSlave_def findSlave_loop_find)

lemma findDirectory_executors_filter:
  "findDirectory_executors executors task =
     (case filter (\<lambda>e. exec_ID e = task_ExecutorID task \<or> exec_ID e = task_ID task) executors of
        [] \<Rightarrow> None
      | e # _ \<Rightarrow> Some (exec_Directory e))"
  by (induction executors) auto

lemma findDirectory_frameworks_filter:
  "findDirectory_frameworks frameworks task completedTasks =
     (case matching_executors \<lparr>ss_Frameworks = frameworks\<rparr> task completedTasks of
        [] \<Rightarrow> []
      | e # _ \<Rightarrow> exec_Directory e)"
proof (induction frameworks)
  case Nil
  show ?case by (simp add: matching_executors_def)
next
  case (Cons f fs)
  show ?case
  proof (cases "sfw_ID f = task_FrameworkID task")
    case False
    with Cons show ?thesis by (simp add: matching_executors_def)
  next
    case True
    let ?execs = "if completedTasks then sfw_CompletedExecutors f else sfw_Executors f"
    let ?m = "filter (\<lambda>e. exec_ID e = task_ExecutorID task \<or> exec_ID e = task_ID task) ?execs"
    have split: "matching_executors \<lparr>ss_Frameworks = f # fs\<rparr> task completedTasks =
                   ?m @ matching_executors \<lparr>ss_Frameworks = fs\<rparr> task completedTasks"
      using True by (simp add: matching_executors_def)
    show ?thesis
    proof (cases ?m)
      case Nil
      with True Cons split show ?thesis
        by (simp add: findDirectory_executors_filter)
    next
      case (Cons e es)
      with True split show ?thesis
        by (simp add: findDirectory_executors_filter)
    qed
  qed
qed

lemma findDirectory_first_match:
  "findDirectory sstate task completedTasks =
     (case matching_executors sstate task completedTasks of
        [] \<Rightarrow> []
      | e # _ \<Rightarrow> exec_Directory e)"
proof -
  have "matching_executors \<lparr>ss_Frameworks = ss_Frameworks sstate\<rparr> task completedTasks =
          matching_executors sstate task completedTasks"
    by (simp add: matching_executors_def)
  then show ?thesis
    using findDirectory_frameworks_filter [of "ss_Frameworks sstate" task completedTasks]
    by (simp add: findDirectory_def)
qed

lemma getSlaveInfo_table:
  "(case find (\<lambda>s. slave_ID s = task_SlaveID task) (ms_Slaves (client_State c)) of
      None \<Rightarrow> getSlaveInfo fetch c task w = (Inl NodeNotFound, w)
    | Some slave \<Rightarrow>
        (case constructSlaveURL slave of
           Inl err \<Rightarrow>
             CHR ''@'' \<notin> set (slave_Pid slave)
             \<and> getSlaveInfo fetch c task w = (Inl (MalformedAddress (slave_Pid slave)), w)
         | Inr slaveURL \<Rightarrow>
             CHR ''@'' \<in> set (slave_Pid slave)
             \<and> (case fetch slaveURL w of
                  (Inl err, w') \<Rightarrow> getSlaveInfo fetch c task w = (Inl (FetchError err), w')
                | (Inr sstate, w') \<Rightarrow>
                    (case matching_executors sstate task (SearchCompletedTasks (client_Options c)) of
                       [] \<Rightarrow> getSlaveInfo fetch c task w = (Inl DirectoryNotFound, w')
                     | e # _ \<Rightarrow>
                         getSlaveInfo fetch c task w =
                           (if exec_Directory e = [] then (Inl DirectoryNotFound, w')
                            else (Inr \<lparr>si_Slave = slave, si_State = sstate,
                                        si_Directory = exec_Directory e\<rparr>, w'))))))"
  unfolding getSlaveInfo_def findSlave_find findDirectory_first_match Let_def
  by (auto simp: constructSlaveURL_cases split: option.splits sum.splits prod.splits list.splits)

lemma find_None_iff_ball: "(find P xs = None) = (\<forall>x\<in>set xs. \<not> P x)"
  by (induction xs) auto

lemma getSlaveInfo_NodeNotFound_iff:
  "(fst (getSlaveInfo fetch c task w) = Inl NodeNotFound)
     = (\<forall>s \<in> set (ms_Slaves (client_State c)). slave_ID s \<noteq> task_SlaveID task)"
  unfolding getSlaveInfo_def findSlave_find Let_def find_None_iff_ball [symmetric]
  by (auto simp: constructSlaveURL_cases split: option.splits sum.splits prod.splits)

lemma getSlaveInfo_MalformedAddress_iff:
  "(\<exists>pid. fst (getSlaveInfo fetch c task w) = Inl (MalformedAddress pid))
     = (\<exists>slave. find (\<lambda>s. slave_ID s = task_SlaveID task) (ms_Slaves (client_State c)) = Some slave
          \<and> CHR ''@'' \<notin> set (slave_Pid slave))"
  unfolding getSlaveInfo_def findSlave_find Let_def
  by (auto simp: constructSlaveURL_cases split: option.splits sum.splits prod.splits)

lemma getSlaveInfo_DirectoryNotFound_iff:
  "(fst (getSlaveInfo fetch c task w) = Inl DirectoryNotFound)
     = (\<exists>slave slaveURL sstate w'.
          find (\<lambda>s. slave_ID s = task_SlaveID task) (ms_Slaves (client_State c)) = Some slave
          \<and> constructSlaveURL slave = Inr slaveURL
          \<and> fetch slaveURL w = (Inr sstate, w')
          \<and> (case matching_executors sstate task (SearchCompletedTasks (client_Options c)) of
                 [] \<Rightarrow> True
               | e # _ \<Rightarrow> exec_Directory e = []))"
  unfolding getSlaveInfo_def findSlave_find findDirectory_first_match Let_def
  by (auto split: option.splits sum.splits prod.splits list.splits dest: constructSlaveURL_error)

lemma getSlaveInfo_not_NotFound: "fst (getSlaveInfo fetch c task w) \<noteq> Inl NotFound"
  unfolding getSlaveInfo_def Let_def
  by (auto split: option.splits sum.splits prod.splits dest: constructSlaveURL_error)

lemma getSlaveInfo_ShowLatestOnly:
  "getSlaveInfo fetch (c\<lparr>client_Options := (client_Options c)\<lparr>ShowLatestOnly := b\<rparr>\<rparr>) task w
     = getSlaveInfo fetch c task w"
  by (auto simp: getSlaveInfo_def split: option.splits sum.splits prod.splits)

text \<open>
  Claim C2 as the specification states it does not hold: it has \<open>getSlaveInfo\<close> fail with
  \<open>DirectoryNotFound\<close> exactly when no executor of the node-state framework of the task has
  the task's executor id or id. Here the only executor of framework \<open>F1\<close> has the task's
  id and an empty directory, and resolution fails with \<open>DirectoryNotFound\<close>; and with
  \<open>SearchCompletedTasks\<close> set, an executor with the task's id and the directory \<open>/sb\<close> that
  is listed among the active executors is not found either.
\<close>

theorem getSlaveInfo_empty_directory_counterexample:
  "getSlaveInfo
     (ex_fetch (ex_slaveState [\<lparr>exec_ID = ''webapp.a-1'', exec_Directory = []\<rparr>] []))
     (ex_client (ex_master [ex_task ''webapp.a-1'' ''webapp'' [1]] [] ''slave(1)@10.0.0.5:5051'')
        False False)
     (ex_task ''webapp.a-1'' ''webapp'' [1]) ()
   = (Inl DirectoryNotFound, ())
   \<and> ss_Frameworks (ex_slaveState [\<lparr>exec_ID = ''webapp.a-1'', exec_Directory = []\<rparr>] [])
       = [\<lparr>sfw_ID = ''F1'',
           sfw_Executors = [\<lparr>exec_ID = ''webapp.a-1'', exec_Directory = []\<rparr>],
           sfw_CompletedExecutors = []\<rparr>]
   \<and> task_FrameworkID (ex_task ''webapp.a-1'' ''webapp'' [1]) = ''F1''
   \<and> task_ID (ex_task ''webapp.a-1'' ''webapp'' [1]) = ''webapp.a-1''
   \<and> getSlaveInfo
     (ex_fetch (ex_slaveState [\<lparr>exec_ID = ''webapp.a-1'', exec_Directory = ''/sb''\<rparr>] []))
     (ex_client (ex_master [ex_task ''webapp.a-1'' ''webapp'' [1]] [] ''slave(1)@10.0.0.5:5051'')
        True False)
     (ex_task ''webapp.a-1'' ''webapp'' [1]) ()
   = (Inl DirectoryNotFound, ())"
  by (simp add: resolve_defs ex_defs)

text \<open>
  Claim C2, amended. \<open>getSlaveInfo\<close> fails with \<open>NodeNotFound\<close> exactly when no node of the
  master state has the task's \<open>slaveID\<close>. Otherwise, with the first such node, it fails
  with \<open>MalformedAddress\<close> exactly when the node's process locator holds no \<open>@\<close>. Otherwise
  it fetches the node's state and returns the error of the fetch when there is one.
  Otherwise it looks at the executors of the node-state frameworks whose id is the task's
  \<open>frameworkID\<close>, in the completed collections when \<open>SearchCompletedTasks\<close> is set and in the
  active ones when it is not, for those whose id is the task's \<open>executorID\<close> or \<open>id\<close>: it
  fails with \<open>DirectoryNotFound\<close> exactly when there is none or the first has an empty
  directory, and otherwise returns the first one's directory with the node record and
  the node state.
\<close>

theorem getSlaveInfo_outcomes:
  "(case find (\<lambda>s. slave_ID s = task_SlaveID task) (ms_Slaves (client_State c)) of
      None \<Rightarrow> getSlaveInfo fetch c task w = (Inl NodeNotFound, w)
    | Some slave \<Rightarrow>
        (case constructSlaveURL slave of
           Inl err \<Rightarrow>
             CHR ''@'' \<notin> set (slave_Pid slave)
             \<and> getSlaveInfo fetch c task w = (Inl (MalformedAddress (slave_Pid slave)), w)
         | Inr slaveURL \<Rightarrow>
             CHR ''@'' \<in> set (slave_Pid slave)
             \<and> (case fetch slaveURL w of
                  (Inl err, w') \<Rightarrow> getSlaveInfo fetch c task w = (Inl (FetchError err), w')
                | (Inr sstate, w') \<Rightarrow>
                    (case matching_executors sstate task (SearchCompletedTasks (client_Options c)) of
                       [] \<Rightarrow> getSlaveInfo fetch c task w = (Inl DirectoryNotFound, w')
                     | e # _ \<Rightarrow>
                         getSlaveInfo fetch c task w =
                           (if exec_Directory e = [] then (Inl DirectoryNotFound, w')
                            else (Inr \<lparr>si_Slave = slave, si_State = sstate,
                                        si_Directory = exec_Directory e\<rparr>, w'))))))
   \<and> ((fst (getSlaveInfo fetch c task w) = Inl NodeNotFound)
        = (\<forall>s \<in> set (ms_Slaves (client_State c)). slave_ID s \<noteq> task_SlaveID task))
   \<and> ((\<exists>pid. fst (getSlaveInfo fetch c task w) = Inl (MalformedAddress pid))
        = (\<exists>slave. find (\<lambda>s. slave_ID s = task_SlaveID task) (ms_Slaves (client_State c))
                      = Some slave
                   \<and> CHR ''@'' \<notin> set (slave_Pid slave)))
   \<and> ((fst (getSlaveInfo fetch c task w) = Inl DirectoryNotFound)
        = (\<exists>slave slaveURL sstate w'.
             find (\<lambda>s. slave_ID s = task_SlaveID task) (ms_Slaves (client_State c)) = Some slave
             \<and> constructSlaveURL slave = Inr slaveURL
             \<and> fetch slaveURL w = (Inr sstate, w')
             \<and> (case matching_executors sstate task (SearchCompletedTasks (client_Options c)) of
                    [] \<Rightarrow> True
                  | e # _ \<Rightarrow> exec_Directory e = [])))"
  using getSlaveInfo_table [where task = task and c = c and fetch = fetch and w = w]
    getSlaveInfo_NodeNotFound_iff [of fetch c task w]
    getSlaveInfo_MalformedAddress_iff [of fetch c task w]
    getSlaveInfo_DirectoryNotFound_iff [of fetch c task w]
  by (intro conjI)

text \<open>Claim C2, amended, where the second executor of the framework is the task's, and
  where the locator has no \<open>@\<close>.\<close>

theorem getSlaveInfo_outcomes_witness:
  "getSlaveInfo
     (ex_fetch (ex_slaveState [\<lparr>exec_ID = ''other'', exec_Directory = ''/x''\<rparr>,
                               \<lparr>exec_ID = ''webapp.a-1'', exec_Directory = ''/sb''\<rparr>] []))
     (ex_client (ex_master [ex_task ''webapp.a-1'' ''webapp'' [1]] [] ''slave(1)@10.0.0.5:5051'')
        False False)
     (ex_task ''webapp.a-1'' ''webapp'' [1]) ()
   = (Inr \<lparr>si_Slave = ex_slave ''slave(1)@10.0.0.5:5051'',
            si_State = ex_slaveState [\<lparr>exec_ID = ''other'', exec_Directory = ''/x''\<rparr>,
                                      \<lparr>exec_ID = ''webapp.a-1'', exec_Directory = ''/sb''\<rparr>] [],
            si_Directory = ''/sb''\<rparr>, ())
   \<and> getSlaveInfo
     (ex_fetch (ex_slaveState [] []))
     (ex_client (ex_master [ex_task ''webapp.a-1'' ''webapp'' [1]] [] ''slave(1)'') False False)
     (ex_task ''webapp.a-1'' ''webapp'' [1]) ()
   = (Inl (MalformedAddress ''slave(1)''), ())"
  using getSlaveInfo_outcomes [where task = "ex_task ''webapp.a-1'' ''webapp'' [1]"
      and c = "ex_client (ex_master [ex_task ''webapp.a-1'' ''webapp'' [1]] []
                 ''slave(1)@10.0.0.5:5051'') False False"
      and fetch = "ex_fetch (ex_slaveState [\<lparr>exec_ID = ''other'', exec_Directory = ''/x''\<rparr>,
                               \<lparr>exec_ID = ''webapp.a-1'', exec_Directory = ''/sb''\<rparr>] [])"
      and w = "()"]
    getSlaveInfo_outcomes [where task = "ex_task ''webapp.a-1'' ''webapp'' [1]"
      and c = "ex_client (ex_master [ex_task ''webapp.a-1'' ''webapp'' [1]] []
                 ''slave(1)'') False False"
      and fetch = "ex_fetch (ex_slaveState [] [])" and w = "()"]
  by (simp add: resolve_defs ex_defs matching_executors_def)

section \<open>The order \<open>GetLog\<close> visits the tasks in\<close>


lemma not_Less_trans: "\<not> Less b a \<Longrightarrow> \<not> Less c b \<Longrightarrow> \<not> Less c a"
  by (auto simp: Less_def split: option.splits)

lemma not_Less_total: "Less b a \<Longrightarrow> \<not> Less a b"
  by (auto simp: Less_def split: option.splits)

lemma Less_key:
  "Less b a = (map_option status_Timestamp (task_LastState a)
                 < map_option status_Timestamp (task_LastState b))"
  by (cases "task_LastState a"; cases "task_LastState b") (simp_all add: Less_def)

text \<open>The promise of \<open>sort.Sort\<close> can be kept on every slice: sorting by the timestamp of
  the latest status and reversing does.\<close>

lemma sort_Sort_ok_exists: "\<exists>srt. \<forall>tasks. sort_Sort_ok srt tasks"
proof -
  let ?k = "\<lambda>t. map_option status_Timestamp (task_LastState t)"
  let ?srt = "\<lambda>tasks. rev (sort_key ?k tasks)"
  have "sort_Sort_ok ?srt tasks" for tasks
  proof -
    have "sorted (map ?k (sort_key ?k tasks))" by (rule sorted_sort_key)
    then have "sorted_wrt (\<lambda>a b. ?k a \<le> ?k b) (sort_key ?k tasks)"
      by (simp add: sorted_map)
    then have "sorted_wrt (\<lambda>a b. ?k b \<le> ?k a) (rev (sort_key ?k tasks))"
      by (simp add: sorted_wrt_rev)
    then have "sorted_wrt (\<lambda>a b. \<not> Less b a) (rev (sort_key ?k tasks))"
      by (rule sorted_wrt_mono_rel [rotated]) (simp add: Less_key not_less)
    then show ?thesis by (simp add: sort_Sort_ok_def)
  qed
  then show ?thesis by blast
qed








section \<open>The poll cycle\<close>

lemma asyncTail_loop_starts:
  "\<exists>evs. asyncTail_loop unmarshal task s path duration offset answers =
     Download (TailURI (slave_Hostname (si_Slave s)) path offset PageLength) # evs"
  by (cases answers) simp_all

lemma sint_go_int_of_int:
  "- (2 ^ 63) \<le> k \<Longrightarrow> k < 2 ^ 63 \<Longrightarrow> sint (word_of_int k :: go_int) = k"
  by (simp add: signed_of_int signed_take_bit_int_eq_self)

lemma sint_offset_add:
  fixes offset :: go_int
  assumes "0 \<le> sint offset" and "sint offset + int n < 2 ^ 63"
  shows "sint (offset + of_nat n) = sint offset + int n"
proof -
  have "offset + of_nat n = word_of_int (sint offset + int n)" by simp
  moreover have "- (2 ^ 63) \<le> sint offset + int n" using assms(1) by simp
  ultimately show ?thesis using assms(2) by (simp only: sint_go_int_of_int)
qed

lemma sint_poll_interval:
  fixes duration :: go_int
  assumes "0 \<le> sint duration" and "sint duration \<le> 9223372036"
  shows "sint (poll_interval duration) = sint duration * 1000000000"
proof -
  have "poll_interval duration = word_of_int (sint duration * 1000000000)"
    by (simp add: poll_interval_def)
  moreover have "- (2 ^ 63) \<le> sint duration * 1000000000" using assms(1) by simp
  moreover have "sint duration * 1000000000 < 2 ^ 63" using assms(2) by simp
  ultimately show ?thesis by (simp only: sint_go_int_of_int)
qed

text \<open>Any run of failed reads and short payloads leaves the offset where it is: every
  request of the run asks for it, and nothing is sent.\<close>

lemma asyncTail_loop_idle_cycles:
  assumes "\<forall>a \<in> set idle. case a of Inl err \<Rightarrow> True | Inr resp \<Rightarrow> length (unmarshal resp) < 5"
  shows "\<exists>evs. asyncTail_loop unmarshal task s path duration offset (idle @ answers) =
                 evs @ asyncTail_loop unmarshal task s path duration offset answers
             \<and> (\<forall>chunk. Send chunk \<notin> set evs)
             \<and> (\<forall>u. Download u \<in> set evs \<longrightarrow>
                    u = TailURI (slave_Hostname (si_Slave s)) path offset PageLength)"
  using assms
proof (induction idle)
  case Nil
  have "asyncTail_loop unmarshal task s path duration offset ([] @ answers) =
          [] @ asyncTail_loop unmarshal task s path duration offset answers" by simp
  then show ?case by fastforce
next
  case (Cons a idle)
  then obtain evs where evs:
    "asyncTail_loop unmarshal task s path duration offset (idle @ answers) =
       evs @ asyncTail_loop unmarshal task s path duration offset answers"
    "\<forall>chunk. Send chunk \<notin> set evs"
    "\<forall>u. Download u \<in> set evs \<longrightarrow>
       u = TailURI (slave_Hostname (si_Slave s)) path offset PageLength"
    by auto
  let ?d = "Download (TailURI (slave_Hostname (si_Slave s)) path offset PageLength)"
  show ?case
  proof (cases a)
    case (Inl err)
    with evs(1) have "asyncTail_loop unmarshal task s path duration offset ((a # idle) @ answers) =
        (?d # Printf (''Error: '' @ err) # evs)
          @ asyncTail_loop unmarshal task s path duration offset answers" by simp
    moreover from evs(2) have "\<forall>chunk. Send chunk \<notin> set (?d # Printf (''Error: '' @ err) # evs)"
      by simp
    moreover from evs(3) have "\<forall>u. Download u \<in> set (?d # Printf (''Error: '' @ err) # evs) \<longrightarrow>
       u = TailURI (slave_Hostname (si_Slave s)) path offset PageLength" by auto
    ultimately show ?thesis by blast
  next
    case (Inr resp)
    with Cons.prems have short: "length (unmarshal resp) < 5" by simp
    with Inr evs(1)
    have "asyncTail_loop unmarshal task s path duration offset ((a # idle) @ answers) =
        (?d # Sleep (poll_interval duration) # evs)
          @ asyncTail_loop unmarshal task s path duration offset answers" by (simp add: Let_def)
    moreover from evs(2) have "\<forall>chunk. Send chunk \<notin> set (?d # Sleep (poll_interval duration) # evs)"
      by simp
    moreover from evs(3) have "\<forall>u. Download u \<in> set (?d # Sleep (poll_interval duration) # evs) \<longrightarrow>
       u = TailURI (slave_Hostname (si_Slave s)) path offset PageLength" by auto
    ultimately show ?thesis by blast
  qed
qed

text \<open>
  Claim C3 as the specification states it does not hold: it has the read after a payload
  of length \<open>L\<close> at offset \<open>O\<close> ask for \<open>O + L\<close> whatever the payload. After a payload of 4
  bytes at offset 0 the tailer sleeps and asks for offset 0 again, not for offset 4.
\<close>

theorem asyncTail_short_payload_counterexample:
  "asyncTail_loop (\<lambda>resp. resp) (ex_task ''webapp.a-1'' ''webapp'' [])
     \<lparr>si_Slave = ex_slave ''slave(1)@10.0.0.5:5051'', si_State = ex_slaveState [] [],
      si_Directory = ''/sb''\<rparr>
     ''/sb/stdout'' 2 0 [Inr ''abcd'']
   = [Download ''http://node1:5051/files/read.json?path=/sb/stdout&offset=0&length=5000'',
      Sleep 2000000000,
      Download ''http://node1:5051/files/read.json?path=/sb/stdout&offset=0&length=5000'']
   \<and> length ''abcd'' = 4
   \<and> TailURI ''node1'' ''/sb/stdout'' (0 + 4) PageLength
       = ''http://node1:5051/files/read.json?path=/sb/stdout&offset=4&length=5000''"
  by (simp add: tail_defs ex_defs)

text \<open>
  Claim C3, amended. In a poll cycle at offset \<open>O\<close>, when the read returns a payload of
  \<open>L\<close> bytes with \<open>L\<close> at least 5 and the decoration of the payload does not panic, the
  tailer sends the decorated payload and the next read asks for \<open>O + L\<close>, whatever the
  payload holds. The sum is the one of Go's \<open>int\<close>: the integer \<open>O + L\<close> as long as that is
  below \<open>2^63\<close>.
\<close>

theorem asyncTail_advances_by_payload_length:
  assumes "5 \<le> length (unmarshal resp)"
    and "decorateLog (task_ID task) (unmarshal resp) = Inr chunk"
  shows "asyncTail_loop unmarshal task s path duration offset (Inr resp # answers) =
           Download (TailURI (slave_Hostname (si_Slave s)) path offset PageLength)
             # Send chunk
             # asyncTail_loop unmarshal task s path duration
                 (offset + of_nat (length (unmarshal resp))) answers
         \<and> (\<exists>evs. asyncTail_loop unmarshal task s path duration
                     (offset + of_nat (length (unmarshal resp))) answers =
                   Download (TailURI (slave_Hostname (si_Slave s)) path
                               (offset + of_nat (length (unmarshal resp))) PageLength) # evs)
         \<and> (0 \<le> sint offset \<and> sint offset + int (length (unmarshal resp)) < 2 ^ 63 \<longrightarrow>
              sint (offset + of_nat (length (unmarshal resp)))
                = sint offset + int (length (unmarshal resp)))"
proof (intro conjI impI)
  show "asyncTail_loop unmarshal task s path duration offset (Inr resp # answers) =
           Download (TailURI (slave_Hostname (si_Slave s)) path offset PageLength)
             # Send chunk
             # asyncTail_loop unmarshal task s path duration
                 (offset + of_nat (length (unmarshal resp))) answers"
    using assms by (simp add: Let_def)
next
  show "\<exists>evs. asyncTail_loop unmarshal task s path duration
                     (offset + of_nat (length (unmarshal resp))) answers =
                   Download (TailURI (slave_Hostname (si_Slave s)) path
                               (offset + of_nat (length (unmarshal resp))) PageLength) # evs"
    by (rule asyncTail_loop_starts)
next
  assume "0 \<le> sint offset \<and> sint offset + int (length (unmarshal resp)) < 2 ^ 63"
  then show "sint (offset + of_nat (length (unmarshal resp)))
                = sint offset + int (length (unmarshal resp))"
    using sint_offset_add [of offset "length (unmarshal resp)"] by simp
qed

text \<open>Claim C3, amended, at offset 7 and a payload of 11 bytes.\<close>

theorem asyncTail_advances_by_payload_length_witness:
  "5 \<le> length ''hello world''
   \<and> decorateLog (task_ID (ex_task ''webapp.a-1'' ''webapp'' [])) ''hello world''
       = Inr ''[webapp.a] hello world\<newline>''
   \<and> asyncTail_loop (\<lambda>resp. resp) (ex_task ''webapp.a-1'' ''webapp'' [])
        \<lparr>si_Slave = ex_slave ''slave(1)@10.0.0.5:5051'', si_State = ex_slaveState [] [],
         si_Directory = ''/sb''\<rparr> ''/sb/stdout'' 2 7 [Inr ''hello world'']
      = [Download ''http://node1:5051/files/read.json?path=/sb/stdout&offset=7&length=5000'',
         Send ''[webapp.a] hello world\<newline>'',
         Download ''http://node1:5051/files/read.json?path=/sb/stdout&offset=18&length=5000'']"
proof -
  have h1: "5 \<le> length ''hello world''" by simp
  have h2: "decorateLog (task_ID (ex_task ''webapp.a-1'' ''webapp'' [])) ''hello world''
              = Inr ''[webapp.a] hello world\<newline>''"
    by (simp add: tail_defs ex_defs)
  show ?thesis
    using h1 h2
      asyncTail_advances_by_payload_length [where unmarshal = "\<lambda>resp. resp"
        and resp = "''hello world''" and task = "ex_task ''webapp.a-1'' ''webapp'' []"
        and chunk = "''[webapp.a] hello world\<newline>''" and offset = 7 and answers = "[]"
        and s = "\<lparr>si_Slave = ex_slave ''slave(1)@10.0.0.5:5051'',
                  si_State = ex_slaveState [] [], si_Directory = ''/sb''\<rparr>"
        and path = "''/sb/stdout''" and duration = 2, OF h1 h2]
    by (simp add: tail_defs ex_defs)
qed

text \<open>
  Claim C4. In a poll cycle at offset \<open>O\<close>, when the read returns a payload shorter than 5
  bytes, the tailer sends nothing: it sleeps the configured poll interval and the next
  read asks for \<open>O\<close> again. The interval is \<open>duration\<close> seconds, in nanoseconds, for every
  \<open>duration\<close> from 0 to 9223372036.
\<close>

theorem asyncTail_backs_off_on_short_payload:
  assumes "length (unmarshal resp) < 5"
  shows "asyncTail_loop unmarshal task s path duration offset (Inr resp # answers) =
           Download (TailURI (slave_Hostname (si_Slave s)) path offset PageLength)
             # Sleep (poll_interval duration)
             # asyncTail_loop unmarshal task s path duration offset answers
         \<and> (\<exists>evs. asyncTail_loop unmarshal task s path duration offset answers =
                   Download (TailURI (slave_Hostname (si_Slave s)) path offset PageLength) # evs)
         \<and> (0 \<le> sint duration \<and> sint duration \<le> 9223372036 \<longrightarrow>
              sint (poll_interval duration) = sint duration * 1000000000)"
proof (intro conjI impI)
  show "asyncTail_loop unmarshal task s path duration offset (Inr resp # answers) =
           Download (TailURI (slave_Hostname (si_Slave s)) path offset PageLength)
             # Sleep (poll_interval duration)
             # asyncTail_loop unmarshal task s path duration offset answers"
    using assms by (simp add: Let_def)
next
  show "\<exists>evs. asyncTail_loop unmarshal task s path duration offset answers =
                   Download (TailURI (slave_Hostname (si_Slave s)) path offset PageLength) # evs"
    by (rule asyncTail_loop_starts)
next
  assume "0 \<le> sint duration \<and> sint duration \<le> 9223372036"
  then show "sint (poll_interval duration) = sint duration * 1000000000"
    using sint_poll_interval [of duration] by simp
qed

text \<open>Claim C4 at offset 7, a payload of 4 bytes and an interval of 2 seconds.\<close>

theorem asyncTail_backs_off_on_short_payload_witness:
  "length ''abcd'' < 5
   \<and> asyncTail_loop (\<lambda>resp. resp) (ex_task ''webapp.a-1'' ''webapp'' [])
        \<lparr>si_Slave = ex_slave ''slave(1)@10.0.0.5:5051'', si_State = ex_slaveState [] [],
         si_Directory = ''/sb''\<rparr> ''/sb/stdout'' 2 7 [Inr ''abcd'']
      = [Download ''http://node1:5051/files/read.json?path=/sb/stdout&offset=7&length=5000'',
         Sleep 2000000000,
         Download ''http://node1:5051/files/read.json?path=/sb/stdout&offset=7&length=5000'']
   \<and> sint (poll_interval 2) = 2000000000"
proof -
  have h: "length ''abcd'' < 5" by simp
  show ?thesis
    using h
      asyncTail_backs_off_on_short_payload [where unmarshal = "\<lambda>resp. resp"
        and resp = "''abcd''" and task = "ex_task ''webapp.a-1'' ''webapp'' []"
        and offset = 7 and answers = "[]"
        and s = "\<lparr>si_Slave = ex_slave ''slave(1)@10.0.0.5:5051'',
                  si_State = ex_slaveState [] [], si_Directory = ''/sb''\<rparr>"
        and path = "''/sb/stdout''" and duration = 2, OF h]
    by (simp add: tail_defs ex_defs)
qed

section \<open>The tailers \<open>TailLogToChannel\<close> starts\<close>

lemma TailLogToChannel_loop_ShowLatestOnly:
  "TailLogToChannel_loop fetch (c\<lparr>client_Options := (client_Options c)\<lparr>ShowLatestOnly := b\<rparr>\<rparr>)
       logtype duration tasks chans w
     = TailLogToChannel_loop fetch c logtype duration tasks chans w"
  by (induction tasks arbitrary: chans w)
     (simp_all add: getSlaveInfo_ShowLatestOnly split: prod.splits sum.splits)

lemma TailLogToChannel_loop_prefix:
  "TailLogToChannel_loop fetch c logtype duration tasks chans w = (err, started, w') \<Longrightarrow>
     \<exists>k \<le> length tasks.
        map tailer_task started = map tailer_task chans @ take k tasks
        \<and> (err = None) = (k = length tasks)
        \<and> err \<noteq> Some NotFound
        \<and> (k < length tasks \<longrightarrow>
             (\<exists>w1 e. getSlaveInfo fetch c (tasks ! k) w1 = (Inl e, w') \<and> err = Some e))"
proof (induction tasks arbitrary: chans w)
  case Nil
  then show ?case by auto
next
  case (Cons task tasks)
  obtain r w1 where g: "getSlaveInfo fetch c task w = (r, w1)"
    by (cases "getSlaveInfo fetch c task w")
  show ?case
  proof (cases r)
    case (Inl e)
    with g Cons.prems have res: "err = Some e" "started = chans" "w' = w1" by simp_all
    moreover have "e \<noteq> NotFound"
      using getSlaveInfo_not_NotFound [of fetch c task w] g Inl by auto
    moreover have "\<exists>w1 e. getSlaveInfo fetch c ((task # tasks) ! 0) w1 = (Inl e, w') \<and> err = Some e"
      using g Inl res by auto
    ultimately have "0 \<le> length (task # tasks)
        \<and> map tailer_task started = map tailer_task chans @ take 0 (task # tasks)
        \<and> (err = None) = (0 = length (task # tasks)) \<and> err \<noteq> Some NotFound
        \<and> (0 < length (task # tasks) \<longrightarrow>
             (\<exists>w1 e. getSlaveInfo fetch c ((task # tasks) ! 0) w1 = (Inl e, w') \<and> err = Some e))"
      by simp
    then show ?thesis by blast
  next
    case (Inr si)
    let ?t = "\<lparr>tailer_task = task, tailer_slaveInfo = si,
               tailer_logtype = logtype, tailer_duration = duration\<rparr>"
    from g Inr Cons.prems
    have "TailLogToChannel_loop fetch c logtype duration tasks (chans @ [?t]) w1
            = (err, started, w')" by simp
    from Cons.IH [OF this] obtain k where k: "k \<le> length tasks"
      "map tailer_task started = map tailer_task (chans @ [?t]) @ take k tasks"
      "(err = None) = (k = length tasks)" "err \<noteq> Some NotFound"
      "k < length tasks \<longrightarrow>
         (\<exists>w1 e. getSlaveInfo fetch c (tasks ! k) w1 = (Inl e, w') \<and> err = Some e)" by blast
    then have "Suc k \<le> length (task # tasks)
        \<and> map tailer_task started = map tailer_task chans @ take (Suc k) (task # tasks)
        \<and> (err = None) = (Suc k = length (task # tasks)) \<and> err \<noteq> Some NotFound
        \<and> (Suc k < length (task # tasks) \<longrightarrow>
             (\<exists>w1 e. getSlaveInfo fetch c ((task # tasks) ! Suc k) w1 = (Inl e, w')
                \<and> err = Some e))"
      by simp
    then show ?thesis by blast
  qed
qed

lemma TailLogToChannel_started:
  assumes "TailLogToChannel fetch c appID logtype duration w = (err, started, w')"
  shows "(err = Some NotFound) = (ti_Tasks (findTask (client_State c) appID) = [])
         \<and> (\<exists>k. map tailer_task started = take k (ti_Tasks (findTask (client_State c) appID)))
         \<and> (err = None) = (ti_Tasks (findTask (client_State c) appID) \<noteq> []
               \<and> map tailer_task started = ti_Tasks (findTask (client_State c) appID))
         \<and> (length started < length (ti_Tasks (findTask (client_State c) appID)) \<longrightarrow>
              (\<exists>w1 e. getSlaveInfo fetch c
                        (ti_Tasks (findTask (client_State c) appID) ! length started) w1
                      = (Inl e, w')
                    \<and> err = Some e))"
proof (cases "ti_Tasks (findTask (client_State c) appID) = []")
  case True
  with assms have "err = Some NotFound" and "started = []"
    by (simp_all add: TailLogToChannel_def)
  with True show ?thesis by simp
next
  case False
  let ?tasks = "ti_Tasks (findTask (client_State c) appID)"
  from False assms
  have "TailLogToChannel_loop fetch c logtype duration ?tasks [] w = (err, started, w')"
    by (simp add: TailLogToChannel_def)
  from TailLogToChannel_loop_prefix [OF this] obtain k where
    k: "k \<le> length ?tasks" "map tailer_task started = take k ?tasks"
      "(err = None) = (k = length ?tasks)" "err \<noteq> Some NotFound"
      "k < length ?tasks \<longrightarrow>
         (\<exists>w1 e. getSlaveInfo fetch c (?tasks ! k) w1 = (Inl e, w') \<and> err = Some e)" by auto
  from k(2) have "length (map tailer_task started) = length (take k ?tasks)" by simp
  with k(1) have len: "length started = k" by simp
  from k(2) have "\<exists>k. map tailer_task started = take k ?tasks" by blast
  moreover have "(err = None) = (map tailer_task started = ?tasks)"
  proof
    assume "err = None"
    with k(2,3) show "map tailer_task started = ?tasks" by simp
  next
    assume "map tailer_task started = ?tasks"
    then have "length started = length ?tasks" by (metis length_map)
    with len k(3) show "err = None" by simp
  qed
  ultimately show ?thesis using k(4,5) False len by simp
qed

lemma TailLogToChannel_loop_trace:
  "TailLogToChannel_loop fetch c logtype duration tasks chans w = (err, started, w') \<Longrightarrow>
     \<exists>new ws. started = chans @ new
        \<and> length new \<le> length tasks
        \<and> length ws = Suc (length new)
        \<and> ws ! 0 = w
        \<and> (\<forall>i < length new.
               new ! i = \<lparr>tailer_task = tasks ! i,
                          tailer_slaveInfo = tailer_slaveInfo (new ! i),
                          tailer_logtype = logtype, tailer_duration = duration\<rparr>
               \<and> getSlaveInfo fetch c (tasks ! i) (ws ! i)
                   = (Inr (tailer_slaveInfo (new ! i)), ws ! Suc i))
        \<and> (if length new = length tasks then err = None \<and> w' = ws ! length new
            else \<exists>e. getSlaveInfo fetch c (tasks ! length new) (ws ! length new) = (Inl e, w')
                     \<and> err = Some e)"
proof (induction tasks arbitrary: chans w)
  case Nil
  then have "started = chans @ [] \<and> length ([]::tailer list) \<le> length ([]::mstateTask list)
      \<and> length [w] = Suc (length ([]::tailer list)) \<and> [w] ! 0 = w
      \<and> (if length ([]::tailer list) = length ([]::mstateTask list)
          then err = None \<and> w' = [w] ! length ([]::tailer list) else False)"
    by simp
  then show ?case by (intro exI [of _ "[]"] exI [of _ "[w]"]) simp
next
  case (Cons task tasks)
  obtain r w1 where g: "getSlaveInfo fetch c task w = (r, w1)"
    by (cases "getSlaveInfo fetch c task w")
  show ?case
  proof (cases r)
    case (Inl e)
    with g Cons.prems have res: "err = Some e" "started = chans" "w' = w1" by simp_all
    show ?thesis
      using res g Inl by (intro exI [of _ "[]"] exI [of _ "[w]"]) simp
  next
    case (Inr si)
    let ?t = "\<lparr>tailer_task = task, tailer_slaveInfo = si,
               tailer_logtype = logtype, tailer_duration = duration\<rparr>"
    from g Inr Cons.prems
    have "TailLogToChannel_loop fetch c logtype duration tasks (chans @ [?t]) w1
            = (err, started, w')" by simp
    from Cons.IH [OF this] obtain new ws where IH:
      "started = (chans @ [?t]) @ new" "length new \<le> length tasks"
      "length ws = Suc (length new)" "ws ! 0 = w1"
      "\<forall>i < length new.
         new ! i = \<lparr>tailer_task = tasks ! i, tailer_slaveInfo = tailer_slaveInfo (new ! i),
                    tailer_logtype = logtype, tailer_duration = duration\<rparr>
         \<and> getSlaveInfo fetch c (tasks ! i) (ws ! i)
             = (Inr (tailer_slaveInfo (new ! i)), ws ! Suc i)"
      "if length new = length tasks then err = None \<and> w' = ws ! length new
       else \<exists>e. getSlaveInfo fetch c (tasks ! length new) (ws ! length new) = (Inl e, w')
                \<and> err = Some e"
      by blast
    have steps: "\<forall>i < length (?t # new).
         (?t # new) ! i = \<lparr>tailer_task = (task # tasks) ! i,
                    tailer_slaveInfo = tailer_slaveInfo ((?t # new) ! i),
                    tailer_logtype = logtype, tailer_duration = duration\<rparr>
         \<and> getSlaveInfo fetch c ((task # tasks) ! i) ((w # ws) ! i)
             = (Inr (tailer_slaveInfo ((?t # new) ! i)), (w # ws) ! Suc i)"
    proof (intro allI impI)
      fix i assume i: "i < length (?t # new)"
      show "(?t # new) ! i = \<lparr>tailer_task = (task # tasks) ! i,
                    tailer_slaveInfo = tailer_slaveInfo ((?t # new) ! i),
                    tailer_logtype = logtype, tailer_duration = duration\<rparr>
         \<and> getSlaveInfo fetch c ((task # tasks) ! i) ((w # ws) ! i)
             = (Inr (tailer_slaveInfo ((?t # new) ! i)), (w # ws) ! Suc i)"
      proof (cases i)
        case 0
        with g Inr IH(4) show ?thesis by simp
      next
        case (Suc k)
        with i have "k < length new" by simp
        with IH(5) Suc show ?thesis by simp
      qed
    qed
    have final: "if length (?t # new) = length (task # tasks)
       then err = None \<and> w' = (w # ws) ! length (?t # new)
       else \<exists>e. getSlaveInfo fetch c ((task # tasks) ! length (?t # new))
                   ((w # ws) ! length (?t # new)) = (Inl e, w') \<and> err = Some e"
      using IH(6) by simp
    have "started = chans @ (?t # new) \<and> length (?t # new) \<le> length (task # tasks)
        \<and> length (w # ws) = Suc (length (?t # new)) \<and> (w # ws) ! 0 = w"
      using IH(1,2,3) by simp
    with steps final show ?thesis
      by (intro exI [of _ "?t # new"] exI [of _ "w # ws"]) blast
  qed
qed

text \<open>
  Claim C10 as stated does not hold: it has \<open>TailLogToChannel\<close> start one tailer for each
  matching active task, for every cluster state. Here two active tasks match and the
  second one names a node that the master state does not list: one tailer starts, not
  two, and the call returns \<open>NodeNotFound\<close>.
\<close>

theorem TailLogToChannel_unresolved_task_counterexample:
  "TailLogToChannel
     (ex_fetch (ex_slaveState [\<lparr>exec_ID = ''webapp.a-1'', exec_Directory = ''/sb''\<rparr>] []))
     (ex_client
        (ex_master [ex_task ''webapp.a-1'' ''webapp'' [],
                    (ex_task ''webapp.b-2'' ''webapp'' [])\<lparr>task_SlaveID := ''S2''\<rparr>]
           [] ''slave(1)@10.0.0.5:5051'')
        False False)
     ''webapp'' STDOUT 2 ()
   = (Some NodeNotFound,
      [\<lparr>tailer_task = ex_task ''webapp.a-1'' ''webapp'' [],
        tailer_slaveInfo =
          \<lparr>si_Slave = ex_slave ''slave(1)@10.0.0.5:5051'',
           si_State = ex_slaveState [\<lparr>exec_ID = ''webapp.a-1'', exec_Directory = ''/sb''\<rparr>] [],
           si_Directory = ''/sb''\<rparr>,
        tailer_logtype = STDOUT, tailer_duration = 2\<rparr>], ())
   \<and> filter (\<lambda>t. task_Name t = ''webapp'' \<or> task_ID t = ''webapp'')
       (concat (map fw_Tasks (ms_Frameworks
          (ex_master [ex_task ''webapp.a-1'' ''webapp'' [],
                      (ex_task ''webapp.b-2'' ''webapp'' [])\<lparr>task_SlaveID := ''S2''\<rparr>]
             [] ''slave(1)@10.0.0.5:5051''))))
     = [ex_task ''webapp.a-1'' ''webapp'' [],
        (ex_task ''webapp.b-2'' ''webapp'' [])\<lparr>task_SlaveID := ''S2''\<rparr>]"
  by (simp add: TailLogToChannel_def resolve_defs findTask_def findTaskLastState_def
      UpdateLastState_def ex_defs Let_def)

text \<open>
  Claim C10, amended. \<open>TailLogToChannel\<close> considers only the active tasks whose name or id
  is the identifier, in the order the master state lists them, unsorted and whatever the
  options are; call them \<open>tasks\<close>. It returns the application-not-found error exactly when
  there is none, also when completed tasks match. Otherwise it resolves the sandbox of
  each task in turn, in the worlds \<open>ws\<close> the resolutions leave one after the other: a task
  whose resolution succeeds gets a tailer, started with the task, the location the
  resolution returned, the log kind and the interval; the first task whose resolution
  fails stops the loop, no tailer is started for it or for a later task, and the call
  returns the error of that resolution. So the tailers are those of the whole list
  exactly when the call returns no error. \<open>ShowLatestOnly\<close> changes nothing of this.
\<close>

theorem TailLogToChannel_active_only:
  fixes c :: MesosClient and appID :: string
  defines "tasks \<equiv> map (\<lambda>t. t\<lparr>task_LastState := findTaskLastState t\<rparr>)
                     (filter (\<lambda>t. task_Name t = appID \<or> task_ID t = appID)
                        (concat (map fw_Tasks (ms_Frameworks (client_State c)))))"
  assumes "TailLogToChannel fetch c appID logtype duration w = (err, started, w')"
  shows "(err = Some NotFound) =
           (filter (\<lambda>t. task_Name t = appID \<or> task_ID t = appID)
              (concat (map fw_Tasks (ms_Frameworks (client_State c)))) = [])
         \<and> (\<exists>k. map tailer_task started = take k tasks)
         \<and> (err = None) = (tasks \<noteq> [] \<and> map tailer_task started = tasks)
         \<and> (\<exists>ws. length started \<le> length tasks
                \<and> length ws = Suc (length started)
                \<and> ws ! 0 = w
                \<and> (\<forall>i < length started.
                       started ! i = \<lparr>tailer_task = tasks ! i,
                                      tailer_slaveInfo = tailer_slaveInfo (started ! i),
                                      tailer_logtype = logtype, tailer_duration = duration\<rparr>
                       \<and> getSlaveInfo fetch c (tasks ! i) (ws ! i)
                           = (Inr (tailer_slaveInfo (started ! i)), ws ! Suc i))
                \<and> (if tasks = [] then err = Some NotFound \<and> w' = w
                    else if length started = length tasks
                    then err = None \<and> w' = ws ! length started
                    else \<exists>e. getSlaveInfo fetch c (tasks ! length started)
                                 (ws ! length started) = (Inl e, w')
                             \<and> err = Some e))
         \<and> TailLogToChannel fetch
               (c\<lparr>client_Options := (client_Options c)\<lparr>ShowLatestOnly := b\<rparr>\<rparr>)
               appID logtype duration w = (err, started, w')"
proof -
  have tasks: "ti_Tasks (findTask (client_State c) appID) = tasks"
    unfolding tasks_def by (rule findTask_Tasks_plain)
  have opt: "TailLogToChannel fetch
               (c\<lparr>client_Options := (client_Options c)\<lparr>ShowLatestOnly := b\<rparr>\<rparr>)
               appID logtype duration w = (err, started, w')"
    using assms(2)
    by (auto simp: TailLogToChannel_def TailLogToChannel_loop_ShowLatestOnly Let_def
        split: if_splits)
  have old: "(err = Some NotFound) = (tasks = [])
         \<and> (\<exists>k. map tailer_task started = take k tasks)
         \<and> (err = None) = (tasks \<noteq> [] \<and> map tailer_task started = tasks)"
    using TailLogToChannel_started [OF assms(2)] unfolding tasks by blast
  have empty: "(tasks = []) =
           (filter (\<lambda>t. task_Name t = appID \<or> task_ID t = appID)
              (concat (map fw_Tasks (ms_Frameworks (client_State c)))) = [])"
    by (simp add: tasks_def)
  have trace: "\<exists>ws. length started \<le> length tasks
                \<and> length ws = Suc (length started)
                \<and> ws ! 0 = w
                \<and> (\<forall>i < length started.
                       started ! i = \<lparr>tailer_task = tasks ! i,
                                      tailer_slaveInfo = tailer_slaveInfo (started ! i),
                                      tailer_logtype = logtype, tailer_duration = duration\<rparr>
                       \<and> getSlaveInfo fetch c (tasks ! i) (ws ! i)
                           = (Inr (tailer_slaveInfo (started ! i)), ws ! Suc i))
                \<and> (if tasks = [] then err = Some NotFound \<and> w' = w
                    else if length started = length tasks
                    then err = None \<and> w' = ws ! length started
                    else \<exists>e. getSlaveInfo fetch c (tasks ! length started)
                                 (ws ! length started) = (Inl e, w')
                             \<and> err = Some e)"
  proof (cases "tasks = []")
    case True
    with assms(2) tasks have "err = Some NotFound" "started = []" "w' = w"
      by (simp_all add: TailLogToChannel_def)
    with True show ?thesis by (intro exI [of _ "[w]"]) simp
  next
    case False
    with assms(2) tasks
    have "TailLogToChannel_loop fetch c logtype duration tasks [] w = (err, started, w')"
      by (simp add: TailLogToChannel_def)
    from TailLogToChannel_loop_trace [OF this] False show ?thesis by auto
  qed
  from old empty trace opt show ?thesis by simp
qed

text \<open>Claim C10, amended, where one of two active tasks matches and a completed one does
  too, and where only a completed task matches.\<close>

theorem TailLogToChannel_active_only_witness:
  "TailLogToChannel
     (ex_fetch (ex_slaveState [\<lparr>exec_ID = ''webapp.a-1'', exec_Directory = ''/sb''\<rparr>] []))
     (ex_client (ex_master [ex_task ''db.b-2'' ''db'' [], ex_task ''webapp.a-1'' ''webapp'' []]
                   [ex_task ''webapp.c-3'' ''webapp'' []] ''slave(1)@10.0.0.5:5051'')
        False True)
     ''webapp'' STDERR 2 ()
   = (None,
      [\<lparr>tailer_task = ex_task ''webapp.a-1'' ''webapp'' [],
        tailer_slaveInfo =
          \<lparr>si_Slave = ex_slave ''slave(1)@10.0.0.5:5051'',
           si_State = ex_slaveState [\<lparr>exec_ID = ''webapp.a-1'', exec_Directory = ''/sb''\<rparr>] [],
           si_Directory = ''/sb''\<rparr>,
        tailer_logtype = STDERR, tailer_duration = 2\<rparr>], ())
   \<and> TailLogToChannel
     (ex_fetch (ex_slaveState [\<lparr>exec_ID = ''webapp.a-1'', exec_Directory = ''/sb''\<rparr>] []))
     (ex_client (ex_master [ex_task ''db.b-2'' ''db'' []]
                   [ex_task ''webapp.c-3'' ''webapp'' []] ''slave(1)@10.0.0.5:5051'')
        False True)
     ''webapp'' STDERR 2 ()
   = (Some NotFound, [], ())"
proof -
  let ?fetch = "ex_fetch (ex_slaveState [\<lparr>exec_ID = ''webapp.a-1'', exec_Directory = ''/sb''\<rparr>] [])"
  have h1: "TailLogToChannel ?fetch
     (ex_client (ex_master [ex_task ''db.b-2'' ''db'' [], ex_task ''webapp.a-1'' ''webapp'' []]
                   [ex_task ''webapp.c-3'' ''webapp'' []] ''slave(1)@10.0.0.5:5051'')
        False True)
     ''webapp'' STDERR 2 ()
   = (None,
      [\<lparr>tailer_task = ex_task ''webapp.a-1'' ''webapp'' [],
        tailer_slaveInfo =
          \<lparr>si_Slave = ex_slave ''slave(1)@10.0.0.5:5051'',
           si_State = ex_slaveState [\<lparr>exec_ID = ''webapp.a-1'', exec_Directory = ''/sb''\<rparr>] [],
           si_Directory = ''/sb''\<rparr>,
        tailer_logtype = STDERR, tailer_duration = 2\<rparr>], ())"
    by (simp add: TailLogToChannel_def resolve_defs find_defs ex_defs Let_def)
  have h2: "TailLogToChannel ?fetch
     (ex_client (ex_master [ex_task ''db.b-2'' ''db'' []]
                   [ex_task ''webapp.c-3'' ''webapp'' []] ''slave(1)@10.0.0.5:5051'')
        False True)
     ''webapp'' STDERR 2 ()
   = (Some NotFound, [], ())"
    by (simp add: TailLogToChannel_def resolve_defs find_defs ex_defs Let_def)
  show ?thesis
    using h1 h2 TailLogToChannel_active_only [OF h1, where b = False]
      TailLogToChannel_active_only [OF h2, where b = False]
    by simp
qed

end
